theory Spec2Isabelle
  imports Main
begin

section \<open>Dynamic values\<close>

text \<open>
  Tool parameters, tool payloads and context variables are untyped JavaScript values
  (\<^verbatim>\<open>unknown\<close>, \<^verbatim>\<open>Record<string, unknown>\<close>). They are modelled as a tagged union.
  An object is the list of its own enumerable properties in enumeration order, which is
  what \<^verbatim>\<open>Object.entries\<close> returns; an array is the list of its elements. Numbers are
  integers. Property keys are ordinary data keys (the special key \<^verbatim>\<open>__proto__\<close> is outside
  the model).
\<close>

datatype jvalue =
    JUndefined
  | JNull
  | JBool bool
  | JNum int
  | JStr string
  | JArr "jvalue list"
  | JObj "(string \<times> jvalue) list"

type_synonym jobject = "(string \<times> jvalue) list"

text \<open>Decimal rendering of an array index, as \<^verbatim>\<open>Object.entries\<close> names array slots.\<close>

definition digit :: "nat \<Rightarrow> char" where
  "digit d = (''0123456789'') ! d"

fun digits :: "nat \<Rightarrow> string" where
  "digits n = (if n < 10 then [digit n] else digits (n div 10) @ [digit (n mod 10)])"

declare digits.simps [simp del]

text \<open>\<^verbatim>\<open>s.startsWith(p)\<close>, \<^verbatim>\<open>s.includes(p)\<close> and \<^verbatim>\<open>a ?? b\<close>.\<close>

definition startsWith :: "string \<Rightarrow> string \<Rightarrow> bool" where
  "startsWith s p = (take (length p) s = p)"

fun str_includes :: "string \<Rightarrow> string \<Rightarrow> bool" where
  "str_includes [] p = (p = [])"
| "str_includes (c # cs) p = (startsWith (c # cs) p \<or> str_includes cs p)"

definition nullish :: "jvalue \<Rightarrow> jvalue \<Rightarrow> jvalue" where
  "nullish a b = (if a = JUndefined \<or> a = JNull then b else a)"

text \<open>\<^verbatim>\<open>Map.prototype.get\<close>: an absent key reads as \<^verbatim>\<open>undefined\<close>.\<close>

definition Map_get :: "(string \<rightharpoonup> jvalue) \<Rightarrow> string \<Rightarrow> jvalue" where
  "Map_get m k = (case m k of None \<Rightarrow> JUndefined | Some v \<Rightarrow> v)"

section \<open>Parameter resolution (\<^verbatim>\<open>BaseAgent.resolveParameters\<close>)\<close>

text \<open>
  The source loops over \<^verbatim>\<open>Object.entries(params)\<close> and treats each value by one of three
  branches. \<open>resolveValue\<close> is the loop body, \<open>resolveParameters\<close> the loop. The second
  branch tests \<^verbatim>\<open>typeof value === 'object' && value !== null\<close>, which holds for arrays
  as well as for plain objects; the recursive call then enumerates the array's entries
  (\<open>resolveElements\<close>, keys \<^verbatim>\<open>"0"\<close>, \<^verbatim>\<open>"1"\<close>, ...) and builds a plain object from them.
  Only \<^verbatim>\<open>context.variables\<close> is read, so the resolver takes that map.
\<close>

fun resolveValue :: "(string \<rightharpoonup> jvalue) \<Rightarrow> jvalue \<Rightarrow> jvalue"
and resolveParameters :: "(string \<rightharpoonup> jvalue) \<Rightarrow> jobject \<Rightarrow> jobject"
and resolveElements :: "(string \<rightharpoonup> jvalue) \<Rightarrow> nat \<Rightarrow> jvalue list \<Rightarrow> jobject"
where
  "resolveValue vars (JStr s) =
     (if startsWith s ''$'' then nullish (Map_get vars (drop 1 s)) (JStr s) else JStr s)"
| "resolveValue vars (JObj es) = JObj (resolveParameters vars es)"
| "resolveValue vars (JArr xs) = JObj (resolveElements vars 0 xs)"
| "resolveValue vars JUndefined = JUndefined"
| "resolveValue vars JNull = JNull"
| "resolveValue vars (JBool b) = JBool b"
| "resolveValue vars (JNum n) = JNum n"
| "resolveParameters vars [] = []"
| "resolveParameters vars ((key, v) # es) =
     (key, resolveValue vars v) # resolveParameters vars es"
| "resolveElements vars i [] = []"
| "resolveElements vars i (x # xs) =
     (digits i, resolveValue vars x) # resolveElements vars (Suc i) xs"

text \<open>The variable key under which the step executor stores a step's payload.\<close>

definition stepResultKey :: "string \<Rightarrow> string" where
  "stepResultKey stepId = ''step.'' @ stepId @ ''.result''"

text \<open>
  Values without variable references and without arrays, at any depth: no string starts
  with the sigil and no array occurs.
\<close>

fun plainValue :: "jvalue \<Rightarrow> bool"
and plainParameters :: "jobject \<Rightarrow> bool"
where
  "plainValue (JStr s) = (\<not> startsWith s ''$'')"
| "plainValue (JObj es) = plainParameters es"
| "plainValue (JArr xs) = False"
| "plainValue JUndefined = True"
| "plainValue JNull = True"
| "plainValue (JBool b) = True"
| "plainValue (JNum n) = True"
| "plainParameters [] = True"
| "plainParameters ((key, v) # es) = (plainValue v \<and> plainParameters es)"

text \<open>No string starting with the sigil at any depth; arrays are allowed.\<close>

fun sigilFreeValue :: "jvalue \<Rightarrow> bool"
and sigilFreeParameters :: "jobject \<Rightarrow> bool"
and sigilFreeElements :: "jvalue list \<Rightarrow> bool"
where
  "sigilFreeValue (JStr s) = (\<not> startsWith s ''$'')"
| "sigilFreeValue (JObj es) = sigilFreeParameters es"
| "sigilFreeValue (JArr xs) = sigilFreeElements xs"
| "sigilFreeValue JUndefined = True"
| "sigilFreeValue JNull = True"
| "sigilFreeValue (JBool b) = True"
| "sigilFreeValue (JNum n) = True"
| "sigilFreeParameters [] = True"
| "sigilFreeParameters ((key, v) # es) = (sigilFreeValue v \<and> sigilFreeParameters es)"
| "sigilFreeElements [] = True"
| "sigilFreeElements (x # xs) = (sigilFreeValue x \<and> sigilFreeElements xs)"

section \<open>Errors\<close>

text \<open>
  A thrown value is either an \<^verbatim>\<open>Error\<close> (plain, the retry library's \<^verbatim>\<open>AbortError\<close>, or
  the schema library's \<^verbatim>\<open>ZodError\<close>), each with its message, or something that is not
  an \<^verbatim>\<open>Error\<close> at all. A computation that may throw returns \<open>js_error + 'a\<close>.
\<close>

datatype js_error = Error string | AbortError string | ZodError string | NonError

text \<open>\<^verbatim>\<open>error instanceof Error ? error.message : fallback\<close>.\<close>

fun errorMessage :: "js_error \<Rightarrow> string \<Rightarrow> string" where
  "errorMessage (Error m) fallback = m"
| "errorMessage (AbortError m) fallback = m"
| "errorMessage (ZodError m) fallback = m"
| "errorMessage NonError fallback = fallback"

section \<open>Tool registry (\<^verbatim>\<open>ToolRegistry\<close>)\<close>

record tool_result =
  tr_success :: bool
  tr_data :: jvalue
  tr_error :: "string option"
  tr_metadata :: "jobject option"

text \<open>
  One run of a tool's capability: what it returned or threw, and the time the registry
  measured around it (\<^verbatim>\<open>Date.now() - startTime\<close>).
\<close>

record tool_run =
  outcome :: "js_error + tool_result"
  elapsedMs :: int

record tool_parameter =
  p_name :: string
  p_type :: string
  p_description :: string
  p_required :: bool
  p_default :: jvalue

record tool_definition =
  td_name :: string
  td_description :: string
  td_parameters :: "tool_parameter list"
  td_execute :: "jobject \<Rightarrow> tool_run"

text \<open>
  The registry's \<^verbatim>\<open>Map<string, ToolDefinition>\<close>, in insertion order (the order of
  \<^verbatim>\<open>getNames\<close> and \<^verbatim>\<open>getAll\<close>).
\<close>

type_synonym registry = "(string \<times> tool_definition) list"

definition getAll :: "registry \<Rightarrow> tool_definition list" where
  "getAll tools = map snd tools"

definition getNames :: "registry \<Rightarrow> string list" where
  "getNames tools = map fst tools"

text \<open>
  \<^verbatim>\<open>key in obj\<close> is true for the object's own properties and for those it inherits. A
  parameter object is a plain object (an object literal, the result of \<^verbatim>\<open>JSON.parse\<close>, of
  a spread, or of the resolver), so what it inherits are the properties of
  \<^verbatim>\<open>Object.prototype\<close>.
\<close>

definition objectPrototypeKeys :: "string list" where
  "objectPrototypeKeys =
     [''constructor'', ''hasOwnProperty'', ''isPrototypeOf'', ''propertyIsEnumerable'',
      ''toLocaleString'', ''toString'', ''valueOf'', ''__proto__'',
      ''__defineGetter__'', ''__defineSetter__'', ''__lookupGetter__'', ''__lookupSetter__'']"

definition hasKey :: "string \<Rightarrow> jobject \<Rightarrow> bool" where
  "hasKey k obj = (map_of obj k \<noteq> None \<or> k \<in> set objectPrototypeKeys)"

text \<open>\<^verbatim>\<open>obj[key] = v\<close> on own properties, and \<^verbatim>\<open>xs.join(sep)\<close>.\<close>

fun assign :: "string \<Rightarrow> jvalue \<Rightarrow> jobject \<Rightarrow> jobject" where
  "assign k v [] = [(k, v)]"
| "assign k v ((k', v') # es) = (if k' = k then (k, v) # es else (k', v') # assign k v es)"

fun join :: "string \<Rightarrow> string list \<Rightarrow> string" where
  "join sep [] = []"
| "join sep [x] = x"
| "join sep (x # y # ys) = x @ sep @ join sep (y # ys)"

definition missingParams :: "tool_definition \<Rightarrow> jobject \<Rightarrow> string list" where
  "missingParams tool params =
     map p_name (filter (\<lambda>p. p_required p \<and> \<not> hasKey (p_name p) params) (td_parameters tool))"

definition applyDefaults :: "tool_definition \<Rightarrow> jobject \<Rightarrow> jobject" where
  "applyDefaults tool params =
     fold (\<lambda>param resolvedParams.
             if \<not> hasKey (p_name param) resolvedParams \<and> p_default param \<noteq> JUndefined
             then assign (p_name param) (p_default param) resolvedParams
             else resolvedParams)
          (td_parameters tool) params"

text \<open>
  \<^verbatim>\<open>ToolRegistry.execute\<close>. The second component lists the capability invocations the
  call made (tool name and the parameters passed), so that "nothing was invoked" can be
  stated.
\<close>

definition ToolRegistry_execute ::
  "registry \<Rightarrow> string \<Rightarrow> jobject \<Rightarrow> tool_result \<times> (string \<times> jobject) list" where
  "ToolRegistry_execute tools name params =
     (case map_of tools name of
        None \<Rightarrow>
          (\<lparr>tr_success = False, tr_data = JUndefined,
            tr_error = Some (''Tool '' @ [CHR 0x27] @ name @ [CHR 0x27] @ '' not found''),
            tr_metadata = None\<rparr>, [])
      | Some tool \<Rightarrow>
          if missingParams tool params \<noteq> [] then
            (\<lparr>tr_success = False, tr_data = JUndefined,
              tr_error = Some (''Missing required parameters: ''
                               @ join '', '' (missingParams tool params)),
              tr_metadata = None\<rparr>, [])
          else
            let resolvedParams = applyDefaults tool params;
                run = td_execute tool resolvedParams
            in (case outcome run of
                  Inr result \<Rightarrow>
                    (result\<lparr>tr_metadata :=
                       Some (assign ''executionTimeMs'' (JNum (elapsedMs run))
                              (case tr_metadata result of None \<Rightarrow> [] | Some m \<Rightarrow> m))\<rparr>,
                     [(name, resolvedParams)])
                | Inl err \<Rightarrow>
                    (\<lparr>tr_success = False, tr_data = JUndefined,
                      tr_error = Some (errorMessage err ''Unknown error''),
                      tr_metadata = Some [(''executionTimeMs'', JNum (elapsedMs run))]\<rparr>,
                     [(name, resolvedParams)])))"

section \<open>Tasks, steps and the execution context\<close>

datatype task_status = Pending | Planning | Executing | Completed | Failed | Cancelled

datatype priority = Low | Medium | High | Critical

record task_input =
  ti_description :: string
  ti_priority :: priority
  ti_context :: "jobject option"
  ti_maxSteps :: int
  ti_timeoutMs :: int

text \<open>The input as the caller passes it, before validation.\<close>

record raw_task_input =
  r_description :: string
  r_priority :: "string option"
  r_context :: "jobject option"
  r_maxSteps :: "int option"
  r_timeoutMs :: "int option"

record task_step =
  s_id :: string
  s_name :: string
  s_description :: string
  s_toolName :: string
  s_parameters :: jobject
  s_status :: task_status
  s_result :: jvalue
  s_error :: "string option"

record task =
  t_id :: string
  t_input :: task_input
  t_status :: task_status
  t_steps :: "task_step list"
  t_result :: jvalue
  t_error :: "string option"

record execution_context =
  taskId :: string
  stepResults :: "string \<rightharpoonup> tool_result"
  variables :: "string \<rightharpoonup> jvalue"

text \<open>
  Timestamps, logging and event emission are left out: \<^verbatim>\<open>emitEvent\<close> catches every
  handler error, so none of them changes the control flow or the fields above.
\<close>

section \<open>Input validation\<close>

text \<open>
  \<^verbatim>\<open>TaskInputSchema\<close> of \<^verbatim>\<open>types/index.ts\<close>: an object schema whose fields are
  \<^verbatim>\<open>description: z.string().min(1, 'Task description is required')\<close>,
  \<^verbatim>\<open>priority: TaskPrioritySchema.default('medium')\<close>,
  \<^verbatim>\<open>context: z.record(z.unknown()).optional()\<close>, and
  \<^verbatim>\<open>z.number().int().positive()\<close> with defaults 10 and 60000 for \<^verbatim>\<open>maxSteps\<close> and
  \<^verbatim>\<open>timeoutMs\<close>. \<^verbatim>\<open>parse\<close> returns the validated input with the defaults filled in,
  or throws a \<^verbatim>\<open>ZodError\<close> that lists one issue for every check that failed, in the
  order of the fields. An issue is modelled by the path of its field and by the message
  the schema gives for it (\<open>None\<close> where the schema gives none and the library's own
  text applies). Numbers are integers here, so only \<^verbatim>\<open>positive\<close> can fail on them.
\<close>

record zod_issue =
  zi_path :: string
  zi_message :: "string option"

datatype zod_error = ZodIssues "zod_issue list"

definition parsePriority :: "string option \<Rightarrow> priority option" where
  "parsePriority p =
     (case p of
        None \<Rightarrow> Some Medium
      | Some s \<Rightarrow>
          if s = ''low'' then Some Low
          else if s = ''medium'' then Some Medium
          else if s = ''high'' then Some High
          else if s = ''critical'' then Some Critical
          else None)"

definition TaskInputSchema_parse :: "raw_task_input \<Rightarrow> zod_error + task_input" where
  "TaskInputSchema_parse input =
     (let maxSteps' = (case r_maxSteps input of None \<Rightarrow> 10 | Some n \<Rightarrow> n);
          timeoutMs' = (case r_timeoutMs input of None \<Rightarrow> 60000 | Some n \<Rightarrow> n);
          issues =
            (if length (r_description input) < 1
             then [\<lparr>zi_path = ''description'',
                    zi_message = Some ''Task description is required''\<rparr>]
             else [])
            @ (if parsePriority (r_priority input) = None
               then [\<lparr>zi_path = ''priority'', zi_message = None\<rparr>] else [])
            @ (if maxSteps' \<le> 0
               then [\<lparr>zi_path = ''maxSteps'', zi_message = None\<rparr>] else [])
            @ (if timeoutMs' \<le> 0
               then [\<lparr>zi_path = ''timeoutMs'', zi_message = None\<rparr>] else [])
      in case parsePriority (r_priority input) of
           None \<Rightarrow> Inl (ZodIssues issues)
         | Some pr \<Rightarrow>
             if issues \<noteq> [] then Inl (ZodIssues issues)
             else Inr \<lparr>ti_description = r_description input, ti_priority = pr,
                       ti_context = r_context input, ti_maxSteps = maxSteps',
                       ti_timeoutMs = timeoutMs'\<rparr>)"

section \<open>Identifiers (\<^verbatim>\<open>generateId\<close>)\<close>

datatype id_prefix = TaskId | StepId | ToolId | EventId

fun PREFIXES :: "id_prefix \<Rightarrow> string" where
  "PREFIXES TaskId = ''task''"
| "PREFIXES StepId = ''step''"
| "PREFIXES ToolId = ''tool''"
| "PREFIXES EventId = ''evt''"

text \<open>
  \<^verbatim>\<open>nanoid(12)\<close> is random. The model takes the sequence of strings it returns during
  one \<^verbatim>\<open>execute\<close> as a function of the draw number: draw 0 names the task, the later
  draws name the steps.
\<close>

definition generateId :: "id_prefix \<Rightarrow> string \<Rightarrow> string" where
  "generateId prefix nano = PREFIXES prefix @ ''_'' @ nano"

section \<open>Step executor (\<^verbatim>\<open>BaseAgent.executeStep\<close>)\<close>

text \<open>
  The source wraps resolution and invocation in a \<^verbatim>\<open>try\<close>. On well-typed parameters the
  resolver cannot throw, and the registry catches what a tool throws, so the \<^verbatim>\<open>catch\<close>
  branch has no counterpart here.
\<close>

definition executeStep ::
  "registry \<Rightarrow> task_step \<Rightarrow> execution_context \<Rightarrow> task_step \<times> execution_context" where
  "executeStep tools step0 ctx =
     (let step = step0\<lparr>s_status := Executing\<rparr>;
          resolvedParams = resolveParameters (variables ctx) (s_parameters step);
          result = fst (ToolRegistry_execute tools (s_toolName step) resolvedParams)
      in if tr_success result then
           (step\<lparr>s_status := Completed, s_result := tr_data result\<rparr>,
            ctx\<lparr>stepResults := (stepResults ctx)(s_id step \<mapsto> result),
                variables :=
                  (if tr_data result \<noteq> JUndefined
                   then (variables ctx)(stepResultKey (s_id step) \<mapsto> tr_data result)
                   else variables ctx)\<rparr>)
         else
           (step\<lparr>s_status := Failed, s_error := tr_error result\<rparr>, ctx))"

section \<open>Task orchestrator (\<^verbatim>\<open>BaseAgent.execute\<close>)\<close>

text \<open>The mutable state of the step loop: the task's status and error, and the context.\<close>

record loop_state =
  l_status :: task_status
  l_error :: "string option"
  l_context :: execution_context

text \<open>
  The \<^verbatim>\<open>for\<close> loop over \<^verbatim>\<open>task.steps\<close>. It returns the steps as the loop leaves them
  (executed ones updated in place, the others untouched) and the final loop state.
\<close>

fun executeSteps :: "registry \<Rightarrow> task_step list \<Rightarrow> loop_state \<Rightarrow> task_step list \<times> loop_state"
where
  "executeSteps tools [] st = ([], st)"
| "executeSteps tools (step # rest) st =
     (if l_status st \<noteq> Executing then (step # rest, st)
      else
        (case executeStep tools step (l_context st) of
           (step', ctx') \<Rightarrow>
             if s_status step' = Failed
             then (step' # rest,
                   st\<lparr>l_status := Failed, l_error := s_error step', l_context := ctx'\<rparr>)
             else (case executeSteps tools rest (st\<lparr>l_context := ctx'\<rparr>) of
                     (rest', st') \<Rightarrow> (step' # rest', st'))))"

definition aggregateResults :: "task_step list \<Rightarrow> jvalue" where
  "aggregateResults steps =
     JObj (fold (\<lambda>step results.
                   if s_status step = Completed \<and> s_result step \<noteq> JUndefined
                   then assign (s_id step)
                          (JObj [(''name'', JStr (s_name step)), (''result'', s_result step)])
                          results
                   else results)
                steps [])"

definition newTask :: "(nat \<Rightarrow> string) \<Rightarrow> task_input \<Rightarrow> task" where
  "newTask nanoid validatedInput =
     \<lparr>t_id = generateId TaskId (nanoid 0), t_input = validatedInput, t_status = Pending,
      t_steps = [], t_result = JUndefined, t_error = None\<rparr>"

text \<open>
  \<^verbatim>\<open>execute\<close> is a template method: \<open>plan\<close> is the abstract planning step, which may throw.
  \<open>Inl\<close> is an error thrown out of \<^verbatim>\<open>execute\<close>; \<open>Inr\<close> is the returned task. Validation
  stands before the \<^verbatim>\<open>try\<close> block, planning and execution inside it, so the only error
  that can leave \<^verbatim>\<open>execute\<close> is the one \<^verbatim>\<open>parse\<close> throws.
\<close>

definition execute ::
  "(task \<Rightarrow> js_error + task_step list) \<Rightarrow> registry \<Rightarrow> (nat \<Rightarrow> string) \<Rightarrow> raw_task_input
     \<Rightarrow> zod_error + task" where
  "execute plan tools nanoid input =
     (case TaskInputSchema_parse input of
        Inl zodError \<Rightarrow> Inl zodError
      | Inr validatedInput \<Rightarrow>
          let task = (newTask nanoid validatedInput)\<lparr>t_status := Planning\<rparr>
          in (case plan task of
                Inl err \<Rightarrow>
                  Inr (task\<lparr>t_status := Failed,
                            t_error := Some (errorMessage err ''Unknown error'')\<rparr>)
              | Inr steps \<Rightarrow>
                  (case executeSteps tools steps
                          \<lparr>l_status = Executing, l_error = None,
                           l_context = \<lparr>taskId = t_id task, stepResults = Map.empty,
                                        variables = Map.empty\<rparr>\<rparr> of
                     (steps', st) \<Rightarrow>
                       if l_status st = Executing
                       then Inr (task\<lparr>t_steps := steps', t_status := Completed,
                                      t_result := aggregateResults steps'\<rparr>)
                       else Inr (task\<lparr>t_steps := steps', t_status := l_status st,
                                      t_error := l_error st\<rparr>))))"

section \<open>Planning (\<^verbatim>\<open>AutomationAgent\<close>)\<close>

record planned_step =
  ps_name :: string
  ps_description :: string
  ps_toolName :: string
  ps_parameters :: jobject

record planning_result =
  pr_reasoning :: string
  pr_steps :: "planned_step list"

text \<open>ASCII \<^verbatim>\<open>toLowerCase\<close> and \<^verbatim>\<open>replace(/_/g, ' ')\<close>.\<close>

definition lowerChar :: "char \<Rightarrow> char" where
  "lowerChar c = (let n = (of_char c :: nat) in if 65 \<le> n \<and> n \<le> 90 then char_of (n + 32) else c)"

definition toLowerCase :: "string \<Rightarrow> string" where
  "toLowerCase s = map lowerChar s"

definition underscoresToSpaces :: "string \<Rightarrow> string" where
  "underscoresToSpaces s = map (\<lambda>c. if c = CHR ''_'' then CHR '' '' else c) s"

definition convertPlanToSteps :: "(nat \<Rightarrow> string) \<Rightarrow> planning_result \<Rightarrow> task_step list" where
  "convertPlanToSteps nanoid plan =
     map (\<lambda>(index, step).
            \<lparr>s_id = generateId StepId (nanoid (Suc index)),
             s_name = (if ps_name step \<noteq> [] then ps_name step
                       else ''Step '' @ digits (index + 1)),
             s_description = ps_description step,
             s_toolName = ps_toolName step,
             s_parameters = ps_parameters step,
             s_status = Pending, s_result = JUndefined, s_error = None\<rparr>)
         (enumerate 0 (pr_steps plan))"

text \<open>
  \<^verbatim>\<open>createSimplePlan\<close>. The test \<^verbatim>\<open>if (matchedTool)\<close> fails when \<^verbatim>\<open>find\<close> returned
  \<^verbatim>\<open>undefined\<close> and also when it returned the empty string; both lead to the default step.
\<close>

definition createSimplePlan :: "registry \<Rightarrow> (nat \<Rightarrow> string) \<Rightarrow> task \<Rightarrow> task_step list" where
  "createSimplePlan tools nanoid task =
     (let matchedTool =
            find (\<lambda>name. str_includes (toLowerCase (ti_description (t_input task)))
                                        (underscoresToSpaces name))
                 (getNames tools)
      in case matchedTool of
           Some m \<Rightarrow>
             if m \<noteq> [] then
               [\<lparr>s_id = generateId StepId (nanoid 1),
                 s_name = ''Execute '' @ m,
                 s_description = ti_description (t_input task),
                 s_toolName = m,
                 s_parameters = (case ti_context (t_input task) of None \<Rightarrow> [] | Some c \<Rightarrow> c),
                 s_status = Pending, s_result = JUndefined, s_error = None\<rparr>]
             else
               [\<lparr>s_id = generateId StepId (nanoid 1),
                 s_name = ''Analyze Input'',
                 s_description = ''Analyze the task input for insights'',
                 s_toolName = ''analyze_text'',
                 s_parameters = [(''text'', JStr (ti_description (t_input task)))],
                 s_status = Pending, s_result = JUndefined, s_error = None\<rparr>]
         | None \<Rightarrow>
             [\<lparr>s_id = generateId StepId (nanoid 1),
               s_name = ''Analyze Input'',
               s_description = ''Analyze the task input for insights'',
               s_toolName = ''analyze_text'',
               s_parameters = [(''text'', JStr (ti_description (t_input task)))],
               s_status = Pending, s_result = JUndefined, s_error = None\<rparr>])"

text \<open>
  \<^verbatim>\<open>AutomationAgent.plan\<close>. \<open>createAIPlan\<close> is the planner collaborator (a call to the
  language-model service), which returns a plan or throws.
\<close>

definition AutomationAgent_plan ::
  "(task \<Rightarrow> tool_definition list \<Rightarrow> js_error + planning_result) \<Rightarrow> registry
     \<Rightarrow> (nat \<Rightarrow> string) \<Rightarrow> task \<Rightarrow> js_error + task_step list" where
  "AutomationAgent_plan createAIPlan tools nanoid task =
     (let availableTools = getAll tools
      in if length availableTools = 0 then Inr (createSimplePlan tools nanoid task)
         else (case createAIPlan task availableTools of
                 Inr planningResult \<Rightarrow> Inr (convertPlanToSteps nanoid planningResult)
               | Inl err \<Rightarrow> Inr (createSimplePlan tools nanoid task)))"

section \<open>Retry wrapper (\<^verbatim>\<open>isRetryableError\<close>, \<^verbatim>\<open>withRetry\<close>)\<close>

fun isRetryableError :: "js_error \<Rightarrow> bool" where
  "isRetryableError (AbortError m) = False"
| "isRetryableError NonError = False"
| "isRetryableError e =
     (let message = errorMessage e [] in
        if str_includes message ''ECONNRESET'' \<or> str_includes message ''ETIMEDOUT'' then True
        else if str_includes message ''429'' \<or> str_includes message ''rate limit'' then True
        else if str_includes message ''500'' \<or> str_includes message ''502''
                \<or> str_includes message ''503'' then True
        else if str_includes message ''overloaded'' \<or> str_includes message ''capacity'' then True
        else False)"

record retry_options =
  retries :: nat
  minTimeout :: int
  maxTimeout :: "int option"
  factor :: "int option"

record p_retry_options =
  pr_retries :: nat
  pr_minTimeout :: int
  pr_maxTimeout :: int
  pr_factor :: int

text \<open>
  Modelled from the spec: the retry loop itself, \<^verbatim>\<open>pRetry\<close> of the p-retry package, which
  is not among the sources. It runs the operation; a success ends the loop; a failure
  that is an \<^verbatim>\<open>AbortError\<close> ends the loop at once, surfacing the error it wraps; any other
  failure is retried while retry budget is left, and surfaced when none is left.
  \<open>input n\<close> is the outcome of the \<open>n\<close>-th invocation of the operation (counting from 1).
  The result pairs the final outcome with the number of invocations made. The delays
  between attempts are not modelled.
\<close>

fun pRetry_loop :: "(nat \<Rightarrow> js_error + 'a) \<Rightarrow> nat \<Rightarrow> nat \<Rightarrow> (js_error + 'a) \<times> nat" where
  "pRetry_loop input 0 attemptNumber =
     (case input attemptNumber of
        Inr v \<Rightarrow> (Inr v, attemptNumber)
      | Inl (AbortError m) \<Rightarrow> (Inl (Error m), attemptNumber)
      | Inl e \<Rightarrow> (Inl e, attemptNumber))"
| "pRetry_loop input (Suc retriesLeft) attemptNumber =
     (case input attemptNumber of
        Inr v \<Rightarrow> (Inr v, attemptNumber)
      | Inl (AbortError m) \<Rightarrow> (Inl (Error m), attemptNumber)
      | Inl e \<Rightarrow> pRetry_loop input retriesLeft (Suc attemptNumber))"

definition pRetry :: "(nat \<Rightarrow> js_error + 'a) \<Rightarrow> p_retry_options \<Rightarrow> (js_error + 'a) \<times> nat" where
  "pRetry input options = pRetry_loop input (pr_retries options) 1"

text \<open>
  \<^verbatim>\<open>withRetry\<close>: the operation is wrapped so that a failure that is not retryable reaches
  the loop as an \<^verbatim>\<open>AbortError\<close>. The \<^verbatim>\<open>onRetry\<close> observer is left out.
\<close>

definition withRetry :: "(nat \<Rightarrow> js_error + 'a) \<Rightarrow> retry_options \<Rightarrow> (js_error + 'a) \<times> nat" where
  "withRetry operation options =
     pRetry
       (\<lambda>n. case operation n of
               Inr v \<Rightarrow> Inr v
             | Inl err \<Rightarrow>
                 if \<not> isRetryableError err
                 then Inl (AbortError (errorMessage err ''Non-retryable error''))
                 else Inl err)
       \<lparr>pr_retries = retries options,
        pr_minTimeout = minTimeout options,
        pr_maxTimeout = (case maxTimeout options of None \<Rightarrow> minTimeout options * 10
                         | Some m \<Rightarrow> m),
        pr_factor = (case factor options of None \<Rightarrow> 2 | Some f \<Rightarrow> f)\<rparr>"

text \<open>The first \<open>k - 1\<close> invocations fail with retryable errors.\<close>

definition retryableUntil :: "(nat \<Rightarrow> js_error + 'a) \<Rightarrow> nat \<Rightarrow> bool" where
  "retryableUntil operation k =
     (\<forall>i \<in> {1..<k}. case operation i of Inl e \<Rightarrow> isRetryableError e | Inr v \<Rightarrow> False)"

section \<open>Circuit breaker (\<^verbatim>\<open>CircuitBreaker\<close>)\<close>

datatype circuit_state = Closed | Open | HalfOpen

record circuit_breaker_options =
  failureThreshold :: int
  resetTimeoutMs :: int

record circuit_breaker =
  state :: circuit_state
  failures :: int
  lastFailureTime :: "int option"

definition newCircuitBreaker :: circuit_breaker where
  "newCircuitBreaker = \<lparr>state = Closed, failures = 0, lastFailureTime = None\<rparr>"

definition shouldAttemptReset :: "circuit_breaker_options \<Rightarrow> int \<Rightarrow> circuit_breaker \<Rightarrow> bool" where
  "shouldAttemptReset options now b =
     (case lastFailureTime b of
        None \<Rightarrow> True
      | Some t \<Rightarrow> now - t \<ge> resetTimeoutMs options)"

definition onSuccess :: "circuit_breaker \<Rightarrow> circuit_breaker" where
  "onSuccess b = b\<lparr>failures := 0, state := Closed\<rparr>"

definition onFailure :: "circuit_breaker_options \<Rightarrow> int \<Rightarrow> circuit_breaker \<Rightarrow> circuit_breaker" where
  "onFailure options now b =
     (let b' = b\<lparr>failures := failures b + 1, lastFailureTime := Some now\<rparr>
      in if failures b' \<ge> failureThreshold options then b'\<lparr>state := Open\<rparr> else b')"

text \<open>
  One call of \<^verbatim>\<open>CircuitBreaker.execute\<close>. The clock is read twice: \<open>clockAtCall\<close> by
  \<^verbatim>\<open>shouldAttemptReset\<close> when the call arrives, \<open>clockAtFailure\<close> by \<^verbatim>\<open>onFailure\<close> when
  the operation has failed. \<open>wrapped\<close> is what the wrapped operation does if it is
  invoked. The result records the outcome, the breaker state in which the operation was
  invoked (\<open>None\<close> when it was not invoked), and the breaker after the call.
\<close>

record 'a call =
  clockAtCall :: int
  clockAtFailure :: int
  wrapped :: "js_error + 'a"

record 'a call_result =
  returned :: "js_error + 'a"
  invokedIn :: "circuit_state option"
  breaker :: circuit_breaker

definition CircuitBreaker_execute ::
  "circuit_breaker_options \<Rightarrow> 'a call \<Rightarrow> circuit_breaker \<Rightarrow> 'a call_result" where
  "CircuitBreaker_execute options c b =
     (if state b = Open \<and> \<not> shouldAttemptReset options (clockAtCall c) b then
        \<lparr>returned = Inl (Error ''Circuit breaker is open''), invokedIn = None, breaker = b\<rparr>
      else
        let b1 = (if state b = Open then b\<lparr>state := HalfOpen\<rparr> else b)
        in (case wrapped c of
              Inr result \<Rightarrow>
                \<lparr>returned = Inr result, invokedIn = Some (state b1), breaker = onSuccess b1\<rparr>
            | Inl err \<Rightarrow>
                \<lparr>returned = Inl err, invokedIn = Some (state b1),
                 breaker = onFailure options (clockAtFailure c) b1\<rparr>))"

text \<open>A sequence of calls on one breaker; the breaker after the last of them.\<close>

fun executeCalls ::
  "circuit_breaker_options \<Rightarrow> 'a call list \<Rightarrow> circuit_breaker \<Rightarrow> circuit_breaker" where
  "executeCalls options [] b = b"
| "executeCalls options (c # cs) b =
     executeCalls options cs (breaker (CircuitBreaker_execute options c b))"

section \<open>Example data\<close>

text \<open>
  Concrete tools, planners and inputs on which the theorems below are instantiated: a
  tool that succeeds with a payload, one that reports a failure, one that succeeds
  without a payload, and one that throws.
\<close>

definition demoNanoid :: "nat \<Rightarrow> string" where
  "demoNanoid n = ''id'' @ digits n"

definition okTool :: tool_definition where
  "okTool =
     \<lparr>td_name = ''ok'', td_description = ''succeeds with a payload'',
      td_parameters = [\<lparr>p_name = ''unit'', p_type = ''string'', p_description = ''unit'',
                        p_required = False, p_default = JStr ''days''\<rparr>],
      td_execute = (\<lambda>params.
         \<lparr>outcome = Inr \<lparr>tr_success = True, tr_data = JObj [(''x'', JNum 5)],
                          tr_error = None, tr_metadata = None\<rparr>,
          elapsedMs = 3\<rparr>)\<rparr>"

definition failTool :: tool_definition where
  "failTool =
     \<lparr>td_name = ''fail'', td_description = ''reports a failure'',
      td_parameters = [],
      td_execute = (\<lambda>params.
         \<lparr>outcome = Inr \<lparr>tr_success = False, tr_data = JUndefined,
                          tr_error = Some ''boom'', tr_metadata = None\<rparr>,
          elapsedMs = 2\<rparr>)\<rparr>"

definition voidTool :: tool_definition where
  "voidTool =
     \<lparr>td_name = ''void'', td_description = ''succeeds without a payload'',
      td_parameters = [],
      td_execute = (\<lambda>params.
         \<lparr>outcome = Inr \<lparr>tr_success = True, tr_data = JUndefined,
                          tr_error = None, tr_metadata = None\<rparr>,
          elapsedMs = 1\<rparr>)\<rparr>"

definition throwTool :: tool_definition where
  "throwTool =
     \<lparr>td_name = ''throw'', td_description = ''throws'',
      td_parameters = [\<lparr>p_name = ''text'', p_type = ''string'', p_description = ''text'',
                        p_required = True, p_default = JUndefined\<rparr>],
      td_execute = (\<lambda>params. \<lparr>outcome = Inl (Error ''crash''), elapsedMs = 4\<rparr>)\<rparr>"

definition inheritedNamesTool :: tool_definition where
  "inheritedNamesTool =
     \<lparr>td_name = ''inherited'', td_description = ''parameters named like inherited properties'',
      td_parameters = [\<lparr>p_name = ''constructor'', p_type = ''string'',
                        p_description = ''required'', p_required = True,
                        p_default = JUndefined\<rparr>,
                       \<lparr>p_name = ''toString'', p_type = ''string'',
                        p_description = ''optional'', p_required = False,
                        p_default = JStr ''x''\<rparr>],
      td_execute = (\<lambda>params.
         \<lparr>outcome = Inr \<lparr>tr_success = True, tr_data = JNum 1,
                          tr_error = None, tr_metadata = None\<rparr>,
          elapsedMs = 6\<rparr>)\<rparr>"

definition demoRegistry :: registry where
  "demoRegistry =
     [(''ok'', okTool), (''fail'', failTool), (''void'', voidTool), (''throw'', throwTool)]"

definition failingPlanner :: "task \<Rightarrow> tool_definition list \<Rightarrow> js_error + planning_result" where
  "failingPlanner task availableTools = Inl (Error ''planner unavailable'')"

definition emptyPlanner :: "task \<Rightarrow> tool_definition list \<Rightarrow> js_error + planning_result" where
  "emptyPlanner task availableTools = Inr \<lparr>pr_reasoning = ''nothing to do'', pr_steps = []\<rparr>"

definition threeStepPlanner :: "task \<Rightarrow> tool_definition list \<Rightarrow> js_error + planning_result" where
  "threeStepPlanner task availableTools =
     Inr \<lparr>pr_reasoning = ''three steps'',
          pr_steps =
            [\<lparr>ps_name = ''first'', ps_description = ''d1'', ps_toolName = ''ok'',
              ps_parameters = []\<rparr>,
             \<lparr>ps_name = ''second'', ps_description = ''d2'', ps_toolName = ''fail'',
              ps_parameters = []\<rparr>,
             \<lparr>ps_name = [], ps_description = ''d3'', ps_toolName = ''ok'',
              ps_parameters = []\<rparr>]\<rparr>"

definition throwingPlan :: "task \<Rightarrow> js_error + task_step list" where
  "throwingPlan task = Inl (Error ''plan failed'')"

definition addDaysInput :: raw_task_input where
  "addDaysInput =
     \<lparr>r_description = ''add 30 days'', r_priority = None, r_context = Some [],
      r_maxSteps = None, r_timeoutMs = None\<rparr>"

definition addDaysValidated :: task_input where
  "addDaysValidated =
     \<lparr>ti_description = ''add 30 days'', ti_priority = Medium, ti_context = Some [],
      ti_maxSteps = 10, ti_timeoutMs = 60000\<rparr>"

definition emptyDescriptionInput :: raw_task_input where
  "emptyDescriptionInput =
     \<lparr>r_description = [], r_priority = None, r_context = None,
      r_maxSteps = None, r_timeoutMs = None\<rparr>"

definition voidStep :: task_step where
  "voidStep =
     \<lparr>s_id = ''step_a'', s_name = ''first'', s_description = ''d'', s_toolName = ''void'',
      s_parameters = [], s_status = Pending, s_result = JUndefined, s_error = None\<rparr>"

definition okStep :: task_step where
  "okStep =
     \<lparr>s_id = ''step_b'', s_name = ''second'', s_description = ''d'', s_toolName = ''ok'',
      s_parameters = [], s_status = Pending, s_result = JUndefined, s_error = None\<rparr>"

definition emptyContext :: execution_context where
  "emptyContext = \<lparr>taskId = ''task_t'', stepResults = Map.empty, variables = Map.empty\<rparr>"

text \<open>
  Operations for the retry wrapper: one that times out twice and then succeeds, one that
  is unavailable on every attempt, and one that is rate-limited once and then rejected
  for good. Calls for the circuit breaker: two failures, a call 495 ms after the last
  failure and a successful call 1000 ms after it.
\<close>

definition flakyOperation :: "nat \<Rightarrow> js_error + int" where
  "flakyOperation n = (if n < 3 then Inl (Error ''connect ETIMEDOUT'') else Inr 42)"

definition unavailableOperation :: "nat \<Rightarrow> js_error + int" where
  "unavailableOperation n = Inl (Error ''503 Service Unavailable'')"

definition rejectedOperation :: "nat \<Rightarrow> js_error + int" where
  "rejectedOperation n =
     (if n < 2 then Inl (Error ''rate limit reached'') else Inl (Error ''invalid api key''))"

definition demoRetryOptions :: retry_options where
  "demoRetryOptions = \<lparr>retries = 3, minTimeout = 1000, maxTimeout = None, factor = None\<rparr>"

definition demoBreakerOptions :: circuit_breaker_options where
  "demoBreakerOptions = \<lparr>failureThreshold = 2, resetTimeoutMs = 1000\<rparr>"

definition failingCalls :: "int call list" where
  "failingCalls =
     [\<lparr>clockAtCall = 0, clockAtFailure = 5, wrapped = Inl (Error ''down'')\<rparr>,
      \<lparr>clockAtCall = 10, clockAtFailure = 15, wrapped = Inl (Error ''down'')\<rparr>]"

definition earlyCall :: "int call" where
  "earlyCall = \<lparr>clockAtCall = 510, clockAtFailure = 520, wrapped = Inr 7\<rparr>"

definition lateCall :: "int call" where
  "lateCall = \<lparr>clockAtCall = 1015, clockAtFailure = 1020, wrapped = Inr 7\<rparr>"

section \<open>Properties of the parameter resolver\<close>

lemma resolve_plain:
  "plainValue v \<Longrightarrow> resolveValue vars v = v"
  "plainParameters es \<Longrightarrow> resolveParameters vars es = es"
  by (induction v and es rule: plainValue_plainParameters.induct) simp_all

lemma resolve_sigilFree_plain:
  "sigilFreeValue v \<Longrightarrow> plainValue (resolveValue vars v)"
  "sigilFreeParameters es \<Longrightarrow> plainParameters (resolveParameters vars es)"
  "sigilFreeElements xs \<Longrightarrow> plainParameters (resolveElements vars i xs)"
  by (induction vars v and vars es and vars i xs
        rule: resolveValue_resolveParameters_resolveElements.induct) simp_all

lemma resolveParameters_lookup:
  "map_of (resolveParameters vars p) k = map_option (resolveValue vars) (map_of p k)"
  by (induction p) auto

text \<open>
  Claim C9. The claim says that an array-valued parameter is opaque to the resolver and
  appears unchanged in the output. The code recurses into it: the array of field names
  that the transform tool expects arrives as a plain object keyed by indices, and a
  reference inside an array is substituted.
\<close>

theorem C9_array_is_recursed:
  "resolveParameters Map.empty [(''fields'', JArr [JStr ''id'', JStr ''name''])]
     = [(''fields'', JObj [(''0'', JStr ''id''), (''1'', JStr ''name'')])]
   \<and> resolveParameters [''v'' \<mapsto> JNum 1] [(''xs'', JArr [JStr ''$v'', JNum 3])]
     = [(''xs'', JObj [(''0'', JNum 1), (''1'', JNum 3)])]"
  by (simp add: startsWith_def nullish_def Map_get_def digits.simps digit_def)

text \<open>
  Claim C8, as stated, fails twice: a map with no reference in it but with an array is
  not returned unchanged, and a reference to a key whose stored value is \<^verbatim>\<open>null\<close>
  resolves to the literal string, not to the stored value.
\<close>

theorem C8_counterexample:
  "sigilFreeParameters [(''a'', JArr [JNum 1])]
   \<and> resolveParameters Map.empty [(''a'', JArr [JNum 1])] \<noteq> [(''a'', JArr [JNum 1])]
   \<and> [stepResultKey ''s1'' \<mapsto> JNull] (stepResultKey ''s1'') = Some JNull
   \<and> map_of (resolveParameters [stepResultKey ''s1'' \<mapsto> JNull]
                [(''x'', JStr (''$'' @ stepResultKey ''s1''))]) ''x''
       = Some (JStr (''$'' @ stepResultKey ''s1''))"
  by (simp add: startsWith_def nullish_def Map_get_def stepResultKey_def)

text \<open>
  Claim C8, amended. On a parameter map with no sigil-prefixed string at any depth the
  resolver is idempotent, and if the map has no array in it either, the resolver returns
  it unchanged. For a parameter whose value is the string \<^verbatim>\<open>$step.<id>.result\<close>, the
  output for that key is the value stored under \<^verbatim>\<open>step.<id>.result\<close> when there is one
  and it is neither \<^verbatim>\<open>null\<close> nor \<^verbatim>\<open>undefined\<close>; otherwise (key absent, or such a
  value stored) it is the original string with its sigil. The resolver is a total
  function: it has no failing branch.
\<close>

theorem C8_resolver:
  "(sigilFreeParameters p \<longrightarrow>
      resolveParameters vars (resolveParameters vars p) = resolveParameters vars p)
   \<and> (plainParameters p \<longrightarrow> resolveParameters vars p = p)
   \<and> (map_of q k = Some (JStr (''$'' @ stepResultKey sid)) \<longrightarrow>
      map_of (resolveParameters vars q) k =
        Some (case vars (stepResultKey sid) of
                None \<Rightarrow> JStr (''$'' @ stepResultKey sid)
              | Some v \<Rightarrow> if v = JUndefined \<or> v = JNull
                          then JStr (''$'' @ stepResultKey sid) else v))"
proof (intro conjI impI)
  assume "sigilFreeParameters p"
  then have "plainParameters (resolveParameters vars p)"
    by (rule resolve_sigilFree_plain(2))
  then show "resolveParameters vars (resolveParameters vars p) = resolveParameters vars p"
    by (rule resolve_plain(2))
next
  assume "plainParameters p"
  then show "resolveParameters vars p = p"
    by (rule resolve_plain(2))
next
  assume "map_of q k = Some (JStr (''$'' @ stepResultKey sid))"
  then show "map_of (resolveParameters vars q) k =
        Some (case vars (stepResultKey sid) of
                None \<Rightarrow> JStr (''$'' @ stepResultKey sid)
              | Some v \<Rightarrow> if v = JUndefined \<or> v = JNull
                          then JStr (''$'' @ stepResultKey sid) else v)"
    by (simp add: resolveParameters_lookup startsWith_def nullish_def Map_get_def
             split: option.splits)
qed

text \<open>
  A map with an array, a map without, and a reference to the stored payload \<^verbatim>\<open>{x: 5}\<close>,
  which comes back as it is.
\<close>

theorem C8_resolver_witness:
  "sigilFreeParameters [(''n'', JNum 5), (''a'', JArr [JStr ''abc''])]
   \<and> resolveParameters Map.empty (resolveParameters Map.empty
         [(''n'', JNum 5), (''a'', JArr [JStr ''abc''])])
       = resolveParameters Map.empty [(''n'', JNum 5), (''a'', JArr [JStr ''abc''])]
   \<and> plainParameters [(''n'', JNum 5), (''o'', JObj [(''s'', JStr ''abc'')])]
   \<and> resolveParameters [stepResultKey ''s1'' \<mapsto> JObj [(''x'', JNum 5)]]
        [(''n'', JNum 5), (''o'', JObj [(''s'', JStr ''abc'')])]
       = [(''n'', JNum 5), (''o'', JObj [(''s'', JStr ''abc'')])]
   \<and> map_of [(''in'', JStr (''$'' @ stepResultKey ''s1''))] ''in''
       = Some (JStr (''$'' @ stepResultKey ''s1''))
   \<and> map_of (resolveParameters [stepResultKey ''s1'' \<mapsto> JObj [(''x'', JNum 5)]]
                [(''in'', JStr (''$'' @ stepResultKey ''s1''))]) ''in''
       = Some (JObj [(''x'', JNum 5)])"
proof -
  have s: "sigilFreeParameters [(''n'', JNum 5), (''a'', JArr [JStr ''abc''])]"
    by (simp add: startsWith_def)
  have a: "plainParameters [(''n'', JNum 5), (''o'', JObj [(''s'', JStr ''abc'')])]"
    by (simp add: startsWith_def)
  have b: "map_of [(''in'', JStr (''$'' @ stepResultKey ''s1''))] ''in''
       = Some (JStr (''$'' @ stepResultKey ''s1''))"
    by simp
  from C8_resolver [of "[(''n'', JNum 5), (''a'', JArr [JStr ''abc''])]" Map.empty] s
  have c: "resolveParameters Map.empty (resolveParameters Map.empty
         [(''n'', JNum 5), (''a'', JArr [JStr ''abc''])])
       = resolveParameters Map.empty [(''n'', JNum 5), (''a'', JArr [JStr ''abc''])]"
    by blast
  from C8_resolver [of "[(''n'', JNum 5), (''o'', JObj [(''s'', JStr ''abc'')])]"
        "[stepResultKey ''s1'' \<mapsto> JObj [(''x'', JNum 5)]]"
        "[(''in'', JStr (''$'' @ stepResultKey ''s1''))]" "''in''" "''s1''"] a b
  have d: "resolveParameters [stepResultKey ''s1'' \<mapsto> JObj [(''x'', JNum 5)]]
        [(''n'', JNum 5), (''o'', JObj [(''s'', JStr ''abc'')])]
       = [(''n'', JNum 5), (''o'', JObj [(''s'', JStr ''abc'')])]"
    and e: "map_of (resolveParameters [stepResultKey ''s1'' \<mapsto> JObj [(''x'', JNum 5)]]
                [(''in'', JStr (''$'' @ stepResultKey ''s1''))]) ''in''
       = Some (JObj [(''x'', JNum 5)])"
    by simp_all
  show ?thesis
    by (intro conjI) (rule s c a d b e)+
qed

section \<open>Properties of the step loop\<close>

lemma executeStep_status:
  "s_status (fst (executeStep tools step ctx)) = Completed
   \<or> s_status (fst (executeStep tools step ctx)) = Failed"
  by (simp add: executeStep_def Let_def)

lemma executeSteps_shape:
  "l_status st = Executing \<Longrightarrow> executeSteps tools steps st = (steps', st') \<Longrightarrow>
     length steps' = length steps \<and>
     ((l_status st' = Executing \<and> (\<forall>s \<in> set steps'. s_status s = Completed))
      \<or> (l_status st' = Failed \<and>
          (\<exists>i < length steps'.
              s_status (steps' ! i) = Failed
              \<and> (\<forall>k < i. s_status (steps' ! k) = Completed)
              \<and> drop (Suc i) steps' = drop (Suc i) steps
              \<and> l_error st' = s_error (steps' ! i))))"
proof (induction steps arbitrary: st steps' st')
  case Nil
  then show ?case by simp
next
  case (Cons step rest)
  obtain step1 ctx1 where es: "executeStep tools step (l_context st) = (step1, ctx1)"
    by (cases "executeStep tools step (l_context st)")
  show ?case
  proof (cases "s_status step1 = Failed")
    case True
    with Cons.prems es have "steps' = step1 # rest"
      and "st' = st\<lparr>l_status := Failed, l_error := s_error step1, l_context := ctx1\<rparr>"
      by simp_all
    with True show ?thesis by auto
  next
    case False
    obtain rest1 st1 where rec: "executeSteps tools rest (st\<lparr>l_context := ctx1\<rparr>) = (rest1, st1)"
      by (cases "executeSteps tools rest (st\<lparr>l_context := ctx1\<rparr>)")
    from Cons.prems es False rec have eq: "steps' = step1 # rest1" "st' = st1"
      by simp_all
    from executeStep_status [of tools step "l_context st"] es False
    have done1: "s_status step1 = Completed" by simp
    from Cons.prems(1) have "l_status (st\<lparr>l_context := ctx1\<rparr>) = Executing" by simp
    from Cons.IH [OF this rec]
    have len: "length rest1 = length rest"
      and alt: "(l_status st1 = Executing \<and> (\<forall>s \<in> set rest1. s_status s = Completed))
      \<or> (l_status st1 = Failed \<and>
          (\<exists>i < length rest1.
              s_status (rest1 ! i) = Failed
              \<and> (\<forall>k < i. s_status (rest1 ! k) = Completed)
              \<and> drop (Suc i) rest1 = drop (Suc i) rest
              \<and> l_error st1 = s_error (rest1 ! i)))"
      by blast+
    from alt show ?thesis
    proof
      assume "l_status st1 = Executing \<and> (\<forall>s \<in> set rest1. s_status s = Completed)"
      with eq len done1 show ?thesis by simp
    next
      assume f: "l_status st1 = Failed \<and>
          (\<exists>i < length rest1.
              s_status (rest1 ! i) = Failed
              \<and> (\<forall>k < i. s_status (rest1 ! k) = Completed)
              \<and> drop (Suc i) rest1 = drop (Suc i) rest
              \<and> l_error st1 = s_error (rest1 ! i))"
      then obtain i where i: "i < length rest1" "s_status (rest1 ! i) = Failed"
        "\<forall>k < i. s_status (rest1 ! k) = Completed"
        "drop (Suc i) rest1 = drop (Suc i) rest" "l_error st1 = s_error (rest1 ! i)"
        by blast
      have "\<forall>k < Suc i. s_status ((step1 # rest1) ! k) = Completed"
        using i(3) done1 by (simp add: nth_Cons split: nat.splits)
      with i f eq len have "l_status st' = Failed \<and> Suc i < length steps'
          \<and> s_status (steps' ! Suc i) = Failed
          \<and> (\<forall>k < Suc i. s_status (steps' ! k) = Completed)
          \<and> drop (Suc (Suc i)) steps' = drop (Suc (Suc i)) (step # rest)
          \<and> l_error st' = s_error (steps' ! Suc i)"
        by simp
      with eq len show ?thesis by auto
    qed
  qed
qed

section \<open>Undefined payloads\<close>

lemma map_of_assign_same: "map_of (assign k v es) k = Some v"
  by (induction es) auto

lemma stepResultKey_inject: "stepResultKey a = stepResultKey b \<longleftrightarrow> a = b"
  by (simp add: stepResultKey_def)

lemma executeStep_variables_other:
  "variables ctx key = None \<Longrightarrow> key \<noteq> stepResultKey (s_id step) \<Longrightarrow>
     variables (snd (executeStep tools step ctx)) key = None"
  by (simp add: executeStep_def Let_def)

lemma executeSteps_variables_other:
  "variables (l_context st) key = None \<Longrightarrow>
   \<forall>s \<in> set steps. stepResultKey (s_id s) \<noteq> key \<Longrightarrow>
     variables (l_context (snd (executeSteps tools steps st))) key = None"
proof (induction steps arbitrary: st)
  case Nil
  then show ?case by simp
next
  case (Cons step rest)
  obtain step1 ctx1 where es: "executeStep tools step (l_context st) = (step1, ctx1)"
    by (cases "executeStep tools step (l_context st)")
  from Cons.prems have "key \<noteq> stepResultKey (s_id step)" by auto
  from executeStep_variables_other [OF Cons.prems(1) this, of tools] es
  have c1: "variables ctx1 key = None" by simp
  then have "variables (l_context (st\<lparr>l_context := ctx1\<rparr>)) key = None" by simp
  moreover from Cons.prems have "\<forall>s \<in> set rest. stepResultKey (s_id s) \<noteq> key" by simp
  ultimately have ih: "variables (l_context (snd (executeSteps tools rest (st\<lparr>l_context := ctx1\<rparr>)))) key = None"
    by (rule Cons.IH)
  show ?case
  proof (cases "l_status st \<noteq> Executing \<or> s_status step1 = Failed")
    case True
    with es c1 Cons.prems(1) show ?thesis by auto
  next
    case False
    obtain rest1 st1 where rec: "executeSteps tools rest (st\<lparr>l_context := ctx1\<rparr>) = (rest1, st1)"
      by (cases "executeSteps tools rest (st\<lparr>l_context := ctx1\<rparr>)")
    with False es ih show ?thesis by simp
  qed
qed

text \<open>
  Claim C10. When a step's tool invocation succeeds with an undefined payload, the step
  executor records the result under the step's id, marks the step completed, and leaves
  the variable map as it was. So the key \<^verbatim>\<open>step.<stepId>.result\<close>, absent before the step
  ran, is still absent after any further steps with other ids have run, and a later
  parameter \<^verbatim>\<open>$step.<stepId>.result\<close> resolves to that literal string.
\<close>

theorem C10_undefined_payload:
  assumes res: "fst (ToolRegistry_execute tools (s_toolName step)
                       (resolveParameters (variables ctx) (s_parameters step))) = r"
      and ok: "tr_success r"
      and undef: "tr_data r = JUndefined"
      and absent: "variables ctx (stepResultKey (s_id step)) = None"
      and run: "executeStep tools step ctx = (step', ctx')"
      and ids: "s_id step \<notin> set (map s_id between)"
      and later: "executeSteps tools between
                    \<lparr>l_status = Executing, l_error = None, l_context = ctx'\<rparr> = (between', st)"
  shows "s_status step' = Completed
       \<and> stepResults ctx' (s_id step) = Some r
       \<and> variables ctx' = variables ctx
       \<and> variables (l_context st) (stepResultKey (s_id step)) = None
       \<and> resolveParameters (variables (l_context st))
            [(k, JStr (''$'' @ stepResultKey (s_id step)))]
          = [(k, JStr (''$'' @ stepResultKey (s_id step)))]"
proof -
  from res ok undef run
  have a: "s_status step' = Completed" "stepResults ctx' (s_id step) = Some r"
    "variables ctx' = variables ctx"
    by (auto simp: executeStep_def Let_def)
  have "\<forall>s \<in> set between. stepResultKey (s_id s) \<noteq> stepResultKey (s_id step)"
  proof
    fix s
    assume "s \<in> set between"
    then have "s_id s \<in> set (map s_id between)" by simp
    with ids have "s_id s \<noteq> s_id step" by metis
    then show "stepResultKey (s_id s) \<noteq> stepResultKey (s_id step)"
      by (simp add: stepResultKey_inject)
  qed
  from executeSteps_variables_other [OF _ this,
      of "\<lparr>l_status = Executing, l_error = None, l_context = ctx'\<rparr>" tools] a(3) absent later
  have b: "variables (l_context st) (stepResultKey (s_id step)) = None" by simp
  then have "resolveParameters (variables (l_context st))
            [(k, JStr (''$'' @ stepResultKey (s_id step)))]
          = [(k, JStr (''$'' @ stepResultKey (s_id step)))]"
    by (simp add: startsWith_def Map_get_def nullish_def)
  with a b show ?thesis by simp
qed

lemma demo_void_result:
  "fst (ToolRegistry_execute demoRegistry (s_toolName voidStep)
          (resolveParameters (variables emptyContext) (s_parameters voidStep)))
     = \<lparr>tr_success = True, tr_data = JUndefined, tr_error = None,
        tr_metadata = Some [(''executionTimeMs'', JNum 1)]\<rparr>"
  by (simp add: ToolRegistry_execute_def demoRegistry_def voidStep_def voidTool_def
        emptyContext_def missingParams_def applyDefaults_def Let_def)

theorem C10_undefined_payload_witness:
  "s_status (fst (executeStep demoRegistry voidStep emptyContext)) = Completed
   \<and> stepResults (snd (executeStep demoRegistry voidStep emptyContext)) ''step_a''
       = Some \<lparr>tr_success = True, tr_data = JUndefined, tr_error = None,
               tr_metadata = Some [(''executionTimeMs'', JNum 1)]\<rparr>
   \<and> variables (snd (executeStep demoRegistry voidStep emptyContext))
       = variables emptyContext
   \<and> variables (l_context (snd (executeSteps demoRegistry [okStep]
           \<lparr>l_status = Executing, l_error = None,
            l_context = snd (executeStep demoRegistry voidStep emptyContext)\<rparr>)))
        (stepResultKey ''step_a'') = None
   \<and> resolveParameters
        (variables (l_context (snd (executeSteps demoRegistry [okStep]
           \<lparr>l_status = Executing, l_error = None,
            l_context = snd (executeStep demoRegistry voidStep emptyContext)\<rparr>))))
        [(''in'', JStr (''$'' @ stepResultKey ''step_a''))]
       = [(''in'', JStr (''$'' @ stepResultKey ''step_a''))]"
proof -
  have h2: "tr_success \<lparr>tr_success = True, tr_data = JUndefined, tr_error = None,
        tr_metadata = Some [(''executionTimeMs'', JNum 1)]\<rparr>" by simp
  have h3: "tr_data \<lparr>tr_success = True, tr_data = JUndefined, tr_error = None,
        tr_metadata = Some [(''executionTimeMs'', JNum 1)]\<rparr> = JUndefined" by simp
  have h4: "variables emptyContext (stepResultKey (s_id voidStep)) = None"
    by (simp add: emptyContext_def)
  have h5: "executeStep demoRegistry voidStep emptyContext
      = (fst (executeStep demoRegistry voidStep emptyContext),
         snd (executeStep demoRegistry voidStep emptyContext))" by simp
  have h6: "s_id voidStep \<notin> set (map s_id [okStep])"
    by (simp add: voidStep_def okStep_def)
  have h7: "executeSteps demoRegistry [okStep]
           \<lparr>l_status = Executing, l_error = None,
            l_context = snd (executeStep demoRegistry voidStep emptyContext)\<rparr>
      = (fst (executeSteps demoRegistry [okStep]
           \<lparr>l_status = Executing, l_error = None,
            l_context = snd (executeStep demoRegistry voidStep emptyContext)\<rparr>),
         snd (executeSteps demoRegistry [okStep]
           \<lparr>l_status = Executing, l_error = None,
            l_context = snd (executeStep demoRegistry voidStep emptyContext)\<rparr>))" by simp
  have id: "s_id voidStep = ''step_a''" by (simp add: voidStep_def)
  show ?thesis
    using C10_undefined_payload [OF demo_void_result h2 h3 h4 h5 h6 h7, of "''in''"]
    unfolding id .
qed

section \<open>Properties of the tool registry\<close>

text \<open>
  Claim C7 says that the returned result carries an \<^verbatim>\<open>executionTimeMs\<close> entry in all
  cases. For an unknown tool and for missing required parameters the code returns a
  result with no metadata at all.
\<close>

theorem C7_counterexample:
  "tr_metadata (fst (ToolRegistry_execute demoRegistry ''nope'' [])) = None
   \<and> tr_metadata (fst (ToolRegistry_execute demoRegistry ''throw'' [])) = None"
  by (simp add: ToolRegistry_execute_def demoRegistry_def throwTool_def missingParams_def
        hasKey_def objectPrototypeKeys_def)

text \<open>
  Claim C7, amended. If no tool of that name is registered, the result is a failure with
  the error \<^verbatim>\<open>Tool '<name>' not found\<close>, no capability is invoked, and the result has no
  metadata. If required parameters are missing, that is, their names are not \<^verbatim>\<open>in\<close> the
  parameter object, neither as own nor as inherited properties, the result is a failure
  that lists them, again with no invocation and no metadata. Whenever the capability is
  invoked (it succeeds, reports a failure, or throws) exactly that one invocation is
  made, with the parameters after defaults, and the metadata of the result contains
  \<^verbatim>\<open>executionTimeMs\<close>, the measured time.
\<close>

theorem C7_registry_execute:
  "(map_of tools name = None \<longrightarrow>
      ToolRegistry_execute tools name params =
        (\<lparr>tr_success = False, tr_data = JUndefined,
          tr_error = Some (''Tool '' @ [CHR 0x27] @ name @ [CHR 0x27] @ '' not found''),
          tr_metadata = None\<rparr>, []))
   \<and> (map_of tools name = Some tool \<and> missingParams tool params \<noteq> [] \<longrightarrow>
      ToolRegistry_execute tools name params =
        (\<lparr>tr_success = False, tr_data = JUndefined,
          tr_error = Some (''Missing required parameters: ''
                           @ join '', '' (missingParams tool params)),
          tr_metadata = None\<rparr>, []))
   \<and> (map_of tools name = Some tool \<and> missingParams tool params = [] \<longrightarrow>
      snd (ToolRegistry_execute tools name params) = [(name, applyDefaults tool params)]
      \<and> (\<exists>md. tr_metadata (fst (ToolRegistry_execute tools name params)) = Some md
             \<and> map_of md ''executionTimeMs''
                 = Some (JNum (elapsedMs (td_execute tool (applyDefaults tool params))))))"
  by (auto simp: ToolRegistry_execute_def Let_def map_of_assign_same split: sum.splits)

text \<open>
  The three cases on the example registry, and first a tool whose required parameter is
  called \<^verbatim>\<open>constructor\<close>: every parameter object inherits a property of that name, so
  nothing is missing, the tool is invoked, and the default of its parameter \<^verbatim>\<open>toString\<close>
  is not filled in.
\<close>

theorem C7_registry_execute_witness:
  "missingParams inheritedNamesTool [] = []
   \<and> snd (ToolRegistry_execute [(''inherited'', inheritedNamesTool)] ''inherited'' [])
       = [(''inherited'', [])]
   \<and> (\<exists>md. tr_metadata
                (fst (ToolRegistry_execute [(''inherited'', inheritedNamesTool)] ''inherited'' []))
              = Some md
          \<and> map_of md ''executionTimeMs'' = Some (JNum 6))
   \<and> map_of demoRegistry ''nope'' = None
   \<and> ToolRegistry_execute demoRegistry ''nope'' [(''text'', JNull)] =
        (\<lparr>tr_success = False, tr_data = JUndefined,
          tr_error = Some (''Tool '' @ [CHR 0x27] @ ''nope'' @ [CHR 0x27] @ '' not found''),
          tr_metadata = None\<rparr>, [])
   \<and> map_of demoRegistry ''throw'' = Some throwTool
   \<and> missingParams throwTool [] = [''text'']
   \<and> ToolRegistry_execute demoRegistry ''throw'' [] =
        (\<lparr>tr_success = False, tr_data = JUndefined,
          tr_error = Some ''Missing required parameters: text'',
          tr_metadata = None\<rparr>, [])
   \<and> map_of demoRegistry ''ok'' = Some okTool
   \<and> missingParams okTool [] = []
   \<and> snd (ToolRegistry_execute demoRegistry ''ok'' []) = [(''ok'', [(''unit'', JStr ''days'')])]
   \<and> (\<exists>md. tr_metadata (fst (ToolRegistry_execute demoRegistry ''ok'' [])) = Some md
          \<and> map_of md ''executionTimeMs'' = Some (JNum 3))"
proof -
  have a: "map_of demoRegistry ''nope'' = None" by (simp add: demoRegistry_def)
  have b: "map_of demoRegistry ''throw'' = Some throwTool" by (simp add: demoRegistry_def)
  have c: "missingParams throwTool [] = [''text'']"
    by (simp add: missingParams_def throwTool_def hasKey_def objectPrototypeKeys_def)
  have d: "map_of demoRegistry ''ok'' = Some okTool" by (simp add: demoRegistry_def)
  have e: "missingParams okTool [] = []"
    by (simp add: missingParams_def okTool_def hasKey_def objectPrototypeKeys_def)
  have f: "applyDefaults okTool [] = [(''unit'', JStr ''days'')]"
    by (simp add: applyDefaults_def okTool_def hasKey_def objectPrototypeKeys_def)
  have g: "elapsedMs (td_execute okTool [(''unit'', JStr ''days'')]) = 3"
    by (simp add: okTool_def)
  have main: "map_of demoRegistry ''nope'' = None
   \<and> ToolRegistry_execute demoRegistry ''nope'' [(''text'', JNull)] =
        (\<lparr>tr_success = False, tr_data = JUndefined,
          tr_error = Some (''Tool '' @ [CHR 0x27] @ ''nope'' @ [CHR 0x27] @ '' not found''),
          tr_metadata = None\<rparr>, [])
   \<and> map_of demoRegistry ''throw'' = Some throwTool
   \<and> missingParams throwTool [] = [''text'']
   \<and> ToolRegistry_execute demoRegistry ''throw'' [] =
        (\<lparr>tr_success = False, tr_data = JUndefined,
          tr_error = Some ''Missing required parameters: text'',
          tr_metadata = None\<rparr>, [])
   \<and> map_of demoRegistry ''ok'' = Some okTool
   \<and> missingParams okTool [] = []
   \<and> snd (ToolRegistry_execute demoRegistry ''ok'' []) = [(''ok'', [(''unit'', JStr ''days'')])]
   \<and> (\<exists>md. tr_metadata (fst (ToolRegistry_execute demoRegistry ''ok'' [])) = Some md
          \<and> map_of md ''executionTimeMs'' = Some (JNum 3))"
    using a b c d e
      C7_registry_execute [of demoRegistry "''nope''" "[(''text'', JNull)]" okTool]
      C7_registry_execute [of demoRegistry "''throw''" "[]" throwTool]
      C7_registry_execute [of demoRegistry "''ok''" "[]" okTool]
    by (simp add: f g)
  have n0: "map_of [(''inherited'', inheritedNamesTool)] ''inherited'' = Some inheritedNamesTool"
    by simp
  have n1: "missingParams inheritedNamesTool [] = []"
    by (simp add: missingParams_def inheritedNamesTool_def hasKey_def objectPrototypeKeys_def)
  have ad: "applyDefaults inheritedNamesTool [] = []"
    by (simp add: applyDefaults_def inheritedNamesTool_def hasKey_def objectPrototypeKeys_def)
  have el: "elapsedMs (td_execute inheritedNamesTool []) = 6"
    by (simp add: inheritedNamesTool_def)
  from C7_registry_execute [of "[(''inherited'', inheritedNamesTool)]" "''inherited''" "[]"
      inheritedNamesTool] n0 n1
  have n2: "snd (ToolRegistry_execute [(''inherited'', inheritedNamesTool)] ''inherited'' [])
       = [(''inherited'', [])]"
    and n3: "\<exists>md. tr_metadata
                (fst (ToolRegistry_execute [(''inherited'', inheritedNamesTool)] ''inherited'' []))
              = Some md
          \<and> map_of md ''executionTimeMs'' = Some (JNum 6)"
    by (simp_all add: ad el)
  show ?thesis
    by (rule conjI [OF n1 conjI [OF n2 conjI [OF n3 main]]])
qed

section \<open>Scenario: no tools registered\<close>

lemma parse_addDaysInput: "TaskInputSchema_parse addDaysInput = Inr addDaysValidated"
  by (simp add: TaskInputSchema_parse_def addDaysInput_def parsePriority_def
        addDaysValidated_def)

text \<open>
  Claim C5 says that the task \<^verbatim>\<open>{description: "add 30 days", context: {}}\<close>, run with no
  tools registered, ends \<^verbatim>\<open>completed\<close>. It ends \<^verbatim>\<open>failed\<close>.
\<close>

theorem C5_counterexample:
  "map_sum id t_status
     (execute (AutomationAgent_plan failingPlanner [] demoNanoid) [] demoNanoid addDaysInput)
   = Inr Failed"
  by (simp add: execute_def parse_addDaysInput addDaysValidated_def AutomationAgent_plan_def
        getAll_def createSimplePlan_def getNames_def newTask_def executeStep_def
        ToolRegistry_execute_def Let_def)

text \<open>
  Claim C5, amended. With no tools registered, whatever the planner collaborator would
  answer and whatever identifiers are drawn, the task gets exactly one step, the fallback
  step for the tool \<^verbatim>\<open>analyze_text\<close> with the description as its text. That tool is not
  registered either, so the step fails and the returned task has status \<^verbatim>\<open>failed\<close> with
  the error \<^verbatim>\<open>Tool 'analyze_text' not found\<close>.
\<close>

theorem C5_no_tools_scenario:
  "execute (AutomationAgent_plan createAIPlan [] nanoid) [] nanoid addDaysInput =
     Inr \<lparr>t_id = generateId TaskId (nanoid 0),
          t_input = \<lparr>ti_description = ''add 30 days'', ti_priority = Medium,
                      ti_context = Some [], ti_maxSteps = 10, ti_timeoutMs = 60000\<rparr>,
          t_status = Failed,
          t_steps =
            [\<lparr>s_id = generateId StepId (nanoid 1),
              s_name = ''Analyze Input'',
              s_description = ''Analyze the task input for insights'',
              s_toolName = ''analyze_text'',
              s_parameters = [(''text'', JStr ''add 30 days'')],
              s_status = Failed, s_result = JUndefined,
              s_error = Some (''Tool '' @ [CHR 0x27] @ ''analyze_text'' @ [CHR 0x27]
                              @ '' not found'')\<rparr>],
          t_result = JUndefined,
          t_error = Some (''Tool '' @ [CHR 0x27] @ ''analyze_text'' @ [CHR 0x27]
                          @ '' not found'')\<rparr>"
  by (simp add: execute_def parse_addDaysInput addDaysValidated_def AutomationAgent_plan_def
        getAll_def createSimplePlan_def getNames_def newTask_def executeStep_def
        ToolRegistry_execute_def Let_def startsWith_def)

section \<open>Planning\<close>

lemma demoRegistry_nonempty: "getAll demoRegistry \<noteq> []"
  by (simp add: getAll_def demoRegistry_def)

text \<open>
  Claim C6 says that a planner returning an empty step list does not yield a completed
  task with zero steps. It does: the task is \<^verbatim>\<open>completed\<close>, has no steps and no error.
\<close>

theorem C6_counterexample:
  "map_sum id t_status
     (execute (AutomationAgent_plan emptyPlanner demoRegistry demoNanoid)
        demoRegistry demoNanoid addDaysInput) = Inr Completed
   \<and> map_sum id t_steps
     (execute (AutomationAgent_plan emptyPlanner demoRegistry demoNanoid)
        demoRegistry demoNanoid addDaysInput) = Inr []
   \<and> map_sum id t_error
     (execute (AutomationAgent_plan emptyPlanner demoRegistry demoNanoid)
        demoRegistry demoNanoid addDaysInput) = Inr None"
  by (simp add: execute_def parse_addDaysInput AutomationAgent_plan_def demoRegistry_nonempty
        emptyPlanner_def convertPlanToSteps_def newTask_def Let_def)

lemma createSimplePlan_length: "length (createSimplePlan tools nanoid task) = 1"
  by (simp add: createSimplePlan_def Let_def split: option.splits)

text \<open>
  Claim C6, amended. Planning never aborts the task: \<^verbatim>\<open>AutomationAgent.plan\<close> always
  returns a step list. With no tool registered, or when the planner fails, the list is
  the single fallback step. Otherwise it has exactly the planner's steps, one for one,
  possibly none. A plan with zero steps yields a \<^verbatim>\<open>completed\<close> task with zero steps, an
  empty result and no error; there is no "no steps produced" failure.
\<close>

theorem C6_planning:
  "(\<exists>steps. AutomationAgent_plan createAIPlan tools nanoid task = Inr steps
       \<and> (tools = [] \<or> isl (createAIPlan task (getAll tools)) \<longrightarrow> length steps = 1)
       \<and> (\<forall>p. tools \<noteq> [] \<and> createAIPlan task (getAll tools) = Inr p \<longrightarrow>
              steps = convertPlanToSteps nanoid p \<and> length steps = length (pr_steps p)))
   \<and> (TaskInputSchema_parse input = Inr v
        \<and> plan ((newTask nanoid v)\<lparr>t_status := Planning\<rparr>) = Inr [] \<longrightarrow>
      execute plan tools nanoid input =
        Inr ((newTask nanoid v)\<lparr>t_status := Completed, t_result := JObj []\<rparr>))"
proof (intro conjI impI)
  show "\<exists>steps. AutomationAgent_plan createAIPlan tools nanoid task = Inr steps
       \<and> (tools = [] \<or> isl (createAIPlan task (getAll tools)) \<longrightarrow> length steps = 1)
       \<and> (\<forall>p. tools \<noteq> [] \<and> createAIPlan task (getAll tools) = Inr p \<longrightarrow>
              steps = convertPlanToSteps nanoid p \<and> length steps = length (pr_steps p))"
    by (cases "createAIPlan task (getAll tools)")
      (auto simp: AutomationAgent_plan_def Let_def getAll_def createSimplePlan_length
        convertPlanToSteps_def)
next
  assume "TaskInputSchema_parse input = Inr v
        \<and> plan ((newTask nanoid v)\<lparr>t_status := Planning\<rparr>) = Inr []"
  then show "execute plan tools nanoid input =
        Inr ((newTask nanoid v)\<lparr>t_status := Completed, t_result := JObj []\<rparr>)"
    by (simp add: execute_def Let_def aggregateResults_def newTask_def)
qed

section \<open>Properties of the orchestrator\<close>

lemma execute_planned:
  assumes v: "TaskInputSchema_parse input = Inr v"
      and p: "plan ((newTask nanoid v)\<lparr>t_status := Planning\<rparr>) = Inr planned"
  shows "\<exists>steps' st.
           executeSteps tools planned
             \<lparr>l_status = Executing, l_error = None,
              l_context = \<lparr>taskId = generateId TaskId (nanoid 0), stepResults = Map.empty,
                           variables = Map.empty\<rparr>\<rparr> = (steps', st)
           \<and> (l_status st = Executing \<or> l_status st = Failed)
           \<and> execute plan tools nanoid input =
               Inr (if l_status st = Executing
                    then (newTask nanoid v)\<lparr>t_steps := steps', t_status := Completed,
                           t_result := aggregateResults steps'\<rparr>
                    else (newTask nanoid v)\<lparr>t_steps := steps', t_status := Failed,
                           t_error := l_error st\<rparr>)"
proof -
  obtain steps' st where run: "executeSteps tools planned
             \<lparr>l_status = Executing, l_error = None,
              l_context = \<lparr>taskId = generateId TaskId (nanoid 0), stepResults = Map.empty,
                           variables = Map.empty\<rparr>\<rparr> = (steps', st)"
    by (cases "executeSteps tools planned
             \<lparr>l_status = Executing, l_error = None,
              l_context = \<lparr>taskId = generateId TaskId (nanoid 0), stepResults = Map.empty,
                           variables = Map.empty\<rparr>\<rparr>")
  from executeSteps_shape [OF _ run] have alt: "l_status st = Executing \<or> l_status st = Failed"
    by auto
  have "execute plan tools nanoid input =
               Inr (if l_status st = Executing
                    then (newTask nanoid v)\<lparr>t_steps := steps', t_status := Completed,
                           t_result := aggregateResults steps'\<rparr>
                    else (newTask nanoid v)\<lparr>t_steps := steps', t_status := Failed,
                           t_error := l_error st\<rparr>)"
    using v p run alt by (auto simp: execute_def Let_def newTask_def)
  with run alt show ?thesis by blast
qed

text \<open>What \<^verbatim>\<open>execute\<close> returns on a valid input, for any planning step.\<close>

lemma execute_returns:
  assumes v: "TaskInputSchema_parse input = Inr v"
  shows "\<exists>t. execute plan tools nanoid input = Inr t
           \<and> (t_status t = Completed \<or> t_status t = Failed)
           \<and> (\<forall>err. plan ((newTask nanoid v)\<lparr>t_status := Planning\<rparr>) = Inl err \<longrightarrow>
                  t_status t = Failed
                  \<and> t_error t = Some (errorMessage err ''Unknown error''))
           \<and> (t_status t = Failed \<longrightarrow>
                  isl (plan ((newTask nanoid v)\<lparr>t_status := Planning\<rparr>))
                  \<or> (\<exists>s \<in> set (t_steps t). s_status s = Failed \<and> t_error t = s_error s))
           \<and> (t_status t = Completed \<longrightarrow>
                  (\<forall>s \<in> set (t_steps t). s_status s = Completed) \<and> t_error t = None)"
proof (cases "plan ((newTask nanoid v)\<lparr>t_status := Planning\<rparr>)")
  case (Inl err)
  with v show ?thesis by (simp add: execute_def Let_def)
next
  case (Inr planned)
  from execute_planned [where plan = plan and nanoid = nanoid and tools = tools, OF v Inr]
  obtain steps' st where
    run: "executeSteps tools planned
           \<lparr>l_status = Executing, l_error = None,
            l_context = \<lparr>taskId = generateId TaskId (nanoid 0), stepResults = Map.empty,
                         variables = Map.empty\<rparr>\<rparr> = (steps', st)"
    and ex: "execute plan tools nanoid input =
             Inr (if l_status st = Executing
                  then (newTask nanoid v)\<lparr>t_steps := steps', t_status := Completed,
                         t_result := aggregateResults steps'\<rparr>
                  else (newTask nanoid v)\<lparr>t_steps := steps', t_status := Failed,
                         t_error := l_error st\<rparr>)"
    by blast
  from executeSteps_shape [OF _ run]
  have "(l_status st = Executing \<and> (\<forall>s \<in> set steps'. s_status s = Completed))
        \<or> (l_status st = Failed \<and> (\<exists>i < length steps'. s_status (steps' ! i) = Failed
              \<and> l_error st = s_error (steps' ! i)))"
    by auto
  then have alt: "(l_status st = Executing \<and> (\<forall>s \<in> set steps'. s_status s = Completed))
        \<or> (l_status st = Failed \<and> (\<exists>s \<in> set steps'. s_status s = Failed
              \<and> l_error st = s_error s))"
    using nth_mem by blast
  have none: "t_error (newTask nanoid v) = None" by (simp add: newTask_def)
  from alt show ?thesis
  proof
    assume "l_status st = Executing \<and> (\<forall>s \<in> set steps'. s_status s = Completed)"
    with ex Inr none show ?thesis by simp
  next
    assume "l_status st = Failed \<and> (\<exists>s \<in> set steps'. s_status s = Failed
              \<and> l_error st = s_error s)"
    with ex Inr show ?thesis by simp
  qed
qed

text \<open>
  The step loop of \<^verbatim>\<open>BaseAgent.execute\<close>, for any planning step that returns steps which
  are all \<^verbatim>\<open>pending\<close>.
\<close>

lemma execute_task_status:
  assumes v: "TaskInputSchema_parse input = Inr v"
      and p: "plan ((newTask nanoid v)\<lparr>t_status := Planning\<rparr>) = Inr planned"
      and pending: "\<forall>s \<in> set planned. s_status s = Pending"
  shows "\<exists>t. execute plan tools nanoid input = Inr t
          \<and> length (t_steps t) = length planned
          \<and> (t_status t = Completed \<longleftrightarrow> (\<forall>s \<in> set (t_steps t). s_status s = Completed))
          \<and> (\<forall>i < length (t_steps t). s_status (t_steps t ! i) = Failed \<longrightarrow>
               t_status t = Failed
               \<and> t_error t = s_error (t_steps t ! i)
               \<and> (\<forall>j. i < j \<and> j < length (t_steps t) \<longrightarrow>
                      t_steps t ! j = planned ! j \<and> s_status (t_steps t ! j) = Pending))"
proof -
  from execute_planned [where plan = plan and nanoid = nanoid and tools = tools, OF v p]
  obtain steps' st where
    run: "executeSteps tools planned
             \<lparr>l_status = Executing, l_error = None,
              l_context = \<lparr>taskId = generateId TaskId (nanoid 0), stepResults = Map.empty,
                           variables = Map.empty\<rparr>\<rparr> = (steps', st)"
    and ex: "execute plan tools nanoid input =
               Inr (if l_status st = Executing
                    then (newTask nanoid v)\<lparr>t_steps := steps', t_status := Completed,
                           t_result := aggregateResults steps'\<rparr>
                    else (newTask nanoid v)\<lparr>t_steps := steps', t_status := Failed,
                           t_error := l_error st\<rparr>)"
    by blast
  have "l_status \<lparr>l_status = Executing, l_error = None,
              l_context = \<lparr>taskId = generateId TaskId (nanoid 0), stepResults = Map.empty,
                           variables = Map.empty\<rparr>\<rparr> = Executing"
    by simp
  from executeSteps_shape [OF this run]
  have len: "length steps' = length planned"
    and alt: "(l_status st = Executing \<and> (\<forall>s \<in> set steps'. s_status s = Completed))
      \<or> (l_status st = Failed \<and>
          (\<exists>i < length steps'.
              s_status (steps' ! i) = Failed
              \<and> (\<forall>k < i. s_status (steps' ! k) = Completed)
              \<and> drop (Suc i) steps' = drop (Suc i) planned
              \<and> l_error st = s_error (steps' ! i)))"
    by blast+
  from alt show ?thesis
  proof
    assume a: "l_status st = Executing \<and> (\<forall>s \<in> set steps'. s_status s = Completed)"
    then have "\<forall>i < length steps'. s_status (steps' ! i) \<noteq> Failed"
      by simp
    with a ex len show ?thesis by simp
  next
    assume f: "l_status st = Failed \<and>
          (\<exists>i < length steps'.
              s_status (steps' ! i) = Failed
              \<and> (\<forall>k < i. s_status (steps' ! k) = Completed)
              \<and> drop (Suc i) steps' = drop (Suc i) planned
              \<and> l_error st = s_error (steps' ! i))"
    then obtain i0 where i0: "i0 < length steps'" "s_status (steps' ! i0) = Failed"
      "\<forall>k < i0. s_status (steps' ! k) = Completed"
      "drop (Suc i0) steps' = drop (Suc i0) planned" "l_error st = s_error (steps' ! i0)"
      by blast
    have after: "steps' ! j = planned ! j \<and> s_status (steps' ! j) = Pending"
      if j: "i0 < j" "j < length steps'" for j
    proof -
      from j have "steps' ! j = drop (Suc i0) steps' ! (j - Suc i0)" by simp
      also have "\<dots> = drop (Suc i0) planned ! (j - Suc i0)" by (simp only: i0(4))
      also from j len have "\<dots> = planned ! j" by simp
      finally have e: "steps' ! j = planned ! j" .
      from j len have "planned ! j \<in> set planned" by simp
      with pending e show ?thesis by simp
    qed
    have only: "i = i0" if i: "i < length steps'" "s_status (steps' ! i) = Failed" for i
    proof (rule ccontr)
      assume "i \<noteq> i0"
      then consider "i < i0" | "i0 < i" by arith
      then show False
      proof cases
        case 1
        with i0(3) i(2) show False by simp
      next
        case 2
        with after [OF 2 i(1)] i(2) show False by simp
      qed
    qed
    have notall: "\<not> (\<forall>s \<in> set steps'. s_status s = Completed)"
    proof
      assume "\<forall>s \<in> set steps'. s_status s = Completed"
      moreover from i0(1) have "steps' ! i0 \<in> set steps'" by simp
      ultimately have "s_status (steps' ! i0) = Completed" by blast
      with i0(2) show False by simp
    qed
    from f ex have ex': "execute plan tools nanoid input =
        Inr ((newTask nanoid v)\<lparr>t_steps := steps', t_status := Failed, t_error := l_error st\<rparr>)"
      by simp
    have rest: "\<forall>i < length steps'. s_status (steps' ! i) = Failed \<longrightarrow>
               l_error st = s_error (steps' ! i)
               \<and> (\<forall>j. i < j \<and> j < length steps' \<longrightarrow>
                      steps' ! j = planned ! j \<and> s_status (steps' ! j) = Pending)"
      using only after i0(5) by blast
    let ?t = "(newTask nanoid v)\<lparr>t_steps := steps', t_status := Failed, t_error := l_error st\<rparr>"
    have sel: "t_steps ?t = steps'" "t_status ?t = Failed" "t_error ?t = l_error st"
      by simp_all
    have "execute plan tools nanoid input = Inr ?t
          \<and> length (t_steps ?t) = length planned
          \<and> (t_status ?t = Completed \<longleftrightarrow> (\<forall>s \<in> set (t_steps ?t). s_status s = Completed))
          \<and> (\<forall>i < length (t_steps ?t). s_status (t_steps ?t ! i) = Failed \<longrightarrow>
               t_status ?t = Failed
               \<and> t_error ?t = s_error (t_steps ?t ! i)
               \<and> (\<forall>j. i < j \<and> j < length (t_steps ?t) \<longrightarrow>
                      t_steps ?t ! j = planned ! j \<and> s_status (t_steps ?t ! j) = Pending))"
      unfolding sel
    proof (intro conjI)
      show "execute plan tools nanoid input = Inr ?t" by (rule ex')
      show "length steps' = length planned" by (rule len)
      show "(Failed = Completed) = (\<forall>s \<in> set steps'. s_status s = Completed)"
        using notall by simp
      show "\<forall>i < length steps'. s_status (steps' ! i) = Failed \<longrightarrow>
               Failed = Failed
               \<and> l_error st = s_error (steps' ! i)
               \<and> (\<forall>j. i < j \<and> j < length steps' \<longrightarrow>
                      steps' ! j = planned ! j \<and> s_status (steps' ! j) = Pending)"
        using rest by blast
    qed
    then show ?thesis by (rule exI)
  qed
qed


text \<open>
  Claim C1, amended. An input that fails validation is rejected by the thrown validation
  error, before any task exists. For every valid input \<^verbatim>\<open>execute\<close> returns a task, whose
  status is \<^verbatim>\<open>completed\<close> or \<^verbatim>\<open>failed\<close>, and every failure is in its status and error:
  an error thrown by planning gives status \<^verbatim>\<open>failed\<close> with the error's message; a task
  that is \<^verbatim>\<open>completed\<close> has only completed steps and no error; a task that is \<^verbatim>\<open>failed\<close>
  has a thrown plan or a failed step whose error is the task's error; and, the planned
  steps being \<^verbatim>\<open>pending\<close> as both planners create them, every failed step makes the task
  \<^verbatim>\<open>failed\<close> with that step's error.
\<close>

theorem C1_execute_boundary:
  "(TaskInputSchema_parse input = Inl e \<longrightarrow> execute plan tools nanoid input = Inl e)
   \<and> (TaskInputSchema_parse input = Inr v \<longrightarrow>
        (\<exists>t. execute plan tools nanoid input = Inr t
           \<and> (t_status t = Completed \<or> t_status t = Failed)
           \<and> (\<forall>err. plan ((newTask nanoid v)\<lparr>t_status := Planning\<rparr>) = Inl err \<longrightarrow>
                  t_status t = Failed
                  \<and> t_error t = Some (errorMessage err ''Unknown error''))
           \<and> (t_status t = Failed \<longrightarrow>
                  isl (plan ((newTask nanoid v)\<lparr>t_status := Planning\<rparr>))
                  \<or> (\<exists>s \<in> set (t_steps t). s_status s = Failed \<and> t_error t = s_error s))
           \<and> (t_status t = Completed \<longrightarrow>
                  (\<forall>s \<in> set (t_steps t). s_status s = Completed) \<and> t_error t = None)
           \<and> (\<forall>planned. plan ((newTask nanoid v)\<lparr>t_status := Planning\<rparr>) = Inr planned
                    \<and> (\<forall>s \<in> set planned. s_status s = Pending) \<longrightarrow>
                  (\<forall>s \<in> set (t_steps t). s_status s = Failed \<longrightarrow>
                      t_status t = Failed \<and> t_error t = s_error s))))"
proof (intro conjI impI)
  assume "TaskInputSchema_parse input = Inl e"
  then show "execute plan tools nanoid input = Inl e"
    by (simp add: execute_def)
next
  assume v: "TaskInputSchema_parse input = Inr v"
  from execute_returns [OF v, of plan tools nanoid]
  obtain t where ex: "execute plan tools nanoid input = Inr t"
    and base: "(t_status t = Completed \<or> t_status t = Failed)
           \<and> (\<forall>err. plan ((newTask nanoid v)\<lparr>t_status := Planning\<rparr>) = Inl err \<longrightarrow>
                  t_status t = Failed
                  \<and> t_error t = Some (errorMessage err ''Unknown error''))
           \<and> (t_status t = Failed \<longrightarrow>
                  isl (plan ((newTask nanoid v)\<lparr>t_status := Planning\<rparr>))
                  \<or> (\<exists>s \<in> set (t_steps t). s_status s = Failed \<and> t_error t = s_error s))
           \<and> (t_status t = Completed \<longrightarrow>
                  (\<forall>s \<in> set (t_steps t). s_status s = Completed) \<and> t_error t = None)"
    by blast
  from base have b1: "t_status t = Completed \<or> t_status t = Failed" by (rule conjunct1)
  from base
  have b2: "\<forall>err. plan ((newTask nanoid v)\<lparr>t_status := Planning\<rparr>) = Inl err \<longrightarrow>
                  t_status t = Failed
                  \<and> t_error t = Some (errorMessage err ''Unknown error'')"
    by (rule conjunct2 [THEN conjunct1])
  from base
  have b3: "t_status t = Failed \<longrightarrow>
                  isl (plan ((newTask nanoid v)\<lparr>t_status := Planning\<rparr>))
                  \<or> (\<exists>s \<in> set (t_steps t). s_status s = Failed \<and> t_error t = s_error s)"
    by (rule conjunct2 [THEN conjunct2, THEN conjunct1])
  from base
  have b4: "t_status t = Completed \<longrightarrow>
                  (\<forall>s \<in> set (t_steps t). s_status s = Completed) \<and> t_error t = None"
    by (rule conjunct2 [THEN conjunct2, THEN conjunct2])
  have steps: "\<forall>planned. plan ((newTask nanoid v)\<lparr>t_status := Planning\<rparr>) = Inr planned
                    \<and> (\<forall>s \<in> set planned. s_status s = Pending) \<longrightarrow>
                  (\<forall>s \<in> set (t_steps t). s_status s = Failed \<longrightarrow>
                      t_status t = Failed \<and> t_error t = s_error s)"
  proof (intro allI impI ballI)
    fix planned s
    assume pl: "plan ((newTask nanoid v)\<lparr>t_status := Planning\<rparr>) = Inr planned
                  \<and> (\<forall>s \<in> set planned. s_status s = Pending)"
      and s: "s \<in> set (t_steps t)" and f: "s_status s = Failed"
    from pl have p: "plan ((newTask nanoid v)\<lparr>t_status := Planning\<rparr>) = Inr planned"
      and pending: "\<forall>s \<in> set planned. s_status s = Pending"
      by simp_all
    from execute_task_status [where plan = plan and tools = tools, OF v p pending]
    obtain t' where e': "execute plan tools nanoid input = Inr t'"
      and F: "\<forall>i < length (t_steps t'). s_status (t_steps t' ! i) = Failed \<longrightarrow>
               t_status t' = Failed \<and> t_error t' = s_error (t_steps t' ! i)"
      by blast
    from e' ex have tt: "t' = t" by simp
    from s obtain i where i: "i < length (t_steps t)" "t_steps t ! i = s"
      by (auto simp: in_set_conv_nth)
    from F i(1) have "s_status (t_steps t ! i) = Failed \<longrightarrow>
               t_status t = Failed \<and> t_error t = s_error (t_steps t ! i)"
      unfolding tt by blast
    with f i(2) show "t_status t = Failed \<and> t_error t = s_error s" by simp
  qed
  show "\<exists>t. execute plan tools nanoid input = Inr t
           \<and> (t_status t = Completed \<or> t_status t = Failed)
           \<and> (\<forall>err. plan ((newTask nanoid v)\<lparr>t_status := Planning\<rparr>) = Inl err \<longrightarrow>
                  t_status t = Failed
                  \<and> t_error t = Some (errorMessage err ''Unknown error''))
           \<and> (t_status t = Failed \<longrightarrow>
                  isl (plan ((newTask nanoid v)\<lparr>t_status := Planning\<rparr>))
                  \<or> (\<exists>s \<in> set (t_steps t). s_status s = Failed \<and> t_error t = s_error s))
           \<and> (t_status t = Completed \<longrightarrow>
                  (\<forall>s \<in> set (t_steps t). s_status s = Completed) \<and> t_error t = None)
           \<and> (\<forall>planned. plan ((newTask nanoid v)\<lparr>t_status := Planning\<rparr>) = Inr planned
                    \<and> (\<forall>s \<in> set planned. s_status s = Pending) \<longrightarrow>
                  (\<forall>s \<in> set (t_steps t). s_status s = Failed \<longrightarrow>
                      t_status t = Failed \<and> t_error t = s_error s))"
    by (intro exI [of _ t] conjI) (rule ex b1 b2 b3 b4 steps)+
qed

text \<open>Both planners of \<^verbatim>\<open>AutomationAgent\<close> create their steps \<^verbatim>\<open>pending\<close>, and never throw.\<close>

lemma AutomationAgent_plan_pending:
  "\<exists>steps. AutomationAgent_plan createAIPlan tools nanoid task = Inr steps
       \<and> (\<forall>s \<in> set steps. s_status s = Pending)"
  by (cases "createAIPlan task (getAll tools)")
    (auto simp: AutomationAgent_plan_def createSimplePlan_def convertPlanToSteps_def Let_def
       split: option.splits)

text \<open>
  Claim C2. For every executed task, that is for every valid input, whatever the planner
  answers and whatever tools are registered: the final status is \<^verbatim>\<open>completed\<close> if and only
  if every step is \<^verbatim>\<open>completed\<close>; and if any step is \<^verbatim>\<open>failed\<close>, then the task is
  \<^verbatim>\<open>failed\<close>, the task's error is that step's error, and every later step is still
  \<^verbatim>\<open>pending\<close>.
\<close>

theorem C2_task_status:
  assumes v: "TaskInputSchema_parse input = Inr v"
  shows "\<exists>t. execute (AutomationAgent_plan createAIPlan tools nanoid) tools nanoid input = Inr t
          \<and> (t_status t = Completed \<longleftrightarrow> (\<forall>s \<in> set (t_steps t). s_status s = Completed))
          \<and> (\<forall>i < length (t_steps t). s_status (t_steps t ! i) = Failed \<longrightarrow>
               t_status t = Failed
               \<and> t_error t = s_error (t_steps t ! i)
               \<and> (\<forall>j. i < j \<and> j < length (t_steps t) \<longrightarrow>
                      s_status (t_steps t ! j) = Pending))"
proof -
  from AutomationAgent_plan_pending
  obtain planned where
    p: "AutomationAgent_plan createAIPlan tools nanoid ((newTask nanoid v)\<lparr>t_status := Planning\<rparr>)
          = Inr planned"
    and pending: "\<forall>s \<in> set planned. s_status s = Pending"
    by blast
  from execute_task_status
    [where plan = "AutomationAgent_plan createAIPlan tools nanoid" and tools = tools,
     OF v p pending]
  show ?thesis by blast
qed

section \<open>Instances\<close>

text \<open>
  Claim C1 says that \<^verbatim>\<open>execute\<close> returns a task for every input, valid or not. On an
  input with an empty description it throws the validation error.
\<close>

theorem C1_counterexample:
  "execute (AutomationAgent_plan failingPlanner demoRegistry demoNanoid)
     demoRegistry demoNanoid emptyDescriptionInput
   = Inl (ZodIssues [\<lparr>zi_path = ''description'',
                       zi_message = Some ''Task description is required''\<rparr>])"
  by (simp add: execute_def TaskInputSchema_parse_def emptyDescriptionInput_def
        parsePriority_def)

lemma parse_emptyDescriptionInput:
  "TaskInputSchema_parse emptyDescriptionInput
     = Inl (ZodIssues [\<lparr>zi_path = ''description'',
                         zi_message = Some ''Task description is required''\<rparr>])"
  by (simp add: TaskInputSchema_parse_def emptyDescriptionInput_def parsePriority_def)

lemma threeStep_execute:
  "execute (AutomationAgent_plan threeStepPlanner demoRegistry demoNanoid)
      demoRegistry demoNanoid addDaysInput
   = Inr \<lparr>t_id = ''task_id0'', t_input = addDaysValidated, t_status = Failed,
          t_steps =
            [\<lparr>s_id = ''step_id1'', s_name = ''first'', s_description = ''d1'',
              s_toolName = ''ok'', s_parameters = [], s_status = Completed,
              s_result = JObj [(''x'', JNum 5)], s_error = None\<rparr>,
             \<lparr>s_id = ''step_id2'', s_name = ''second'', s_description = ''d2'',
              s_toolName = ''fail'', s_parameters = [], s_status = Failed,
              s_result = JUndefined, s_error = Some ''boom''\<rparr>,
             \<lparr>s_id = ''step_id3'', s_name = ''Step 3'', s_description = ''d3'',
              s_toolName = ''ok'', s_parameters = [], s_status = Pending,
              s_result = JUndefined, s_error = None\<rparr>],
          t_result = JUndefined, t_error = Some ''boom''\<rparr>"
  by (simp add: execute_def parse_addDaysInput Let_def newTask_def
        AutomationAgent_plan_def getAll_def threeStepPlanner_def convertPlanToSteps_def
        generateId_def demoNanoid_def digits.simps digit_def
        executeStep_def ToolRegistry_execute_def demoRegistry_def okTool_def failTool_def
        missingParams_def applyDefaults_def hasKey_def objectPrototypeKeys_def)

text \<open>
  An invalid input, a valid input whose planning throws, and a valid input whose second
  step fails.
\<close>

theorem C1_execute_boundary_witness:
  "TaskInputSchema_parse emptyDescriptionInput
     = Inl (ZodIssues [\<lparr>zi_path = ''description'',
                         zi_message = Some ''Task description is required''\<rparr>])
   \<and> execute throwingPlan demoRegistry demoNanoid emptyDescriptionInput
       = Inl (ZodIssues [\<lparr>zi_path = ''description'',
                           zi_message = Some ''Task description is required''\<rparr>])
   \<and> TaskInputSchema_parse addDaysInput = Inr addDaysValidated
   \<and> throwingPlan ((newTask demoNanoid addDaysValidated)\<lparr>t_status := Planning\<rparr>)
       = Inl (Error ''plan failed'')
   \<and> (\<exists>t. execute throwingPlan demoRegistry demoNanoid addDaysInput = Inr t
          \<and> t_status t = Failed \<and> t_error t = Some ''plan failed'')
   \<and> (\<exists>t. execute (AutomationAgent_plan threeStepPlanner demoRegistry demoNanoid)
              demoRegistry demoNanoid addDaysInput = Inr t
          \<and> s_status (t_steps t ! 1) = Failed
          \<and> t_status t = Failed
          \<and> t_error t = s_error (t_steps t ! 1)
          \<and> t_error t = Some ''boom'')"
proof -
  let ?issues = "ZodIssues [\<lparr>zi_path = ''description'',
                         zi_message = Some ''Task description is required''\<rparr>]"
  have tp: "throwingPlan ((newTask demoNanoid addDaysValidated)\<lparr>t_status := Planning\<rparr>)
       = Inl (Error ''plan failed'')"
    by (simp add: throwingPlan_def)
  from C1_execute_boundary [of emptyDescriptionInput ?issues
      throwingPlan demoRegistry demoNanoid addDaysValidated] parse_emptyDescriptionInput
  have a: "execute throwingPlan demoRegistry demoNanoid emptyDescriptionInput = Inl ?issues"
    by blast
  from C1_execute_boundary [of addDaysInput ?issues
      throwingPlan demoRegistry demoNanoid addDaysValidated] parse_addDaysInput tp
  have b: "\<exists>t. execute throwingPlan demoRegistry demoNanoid addDaysInput = Inr t
          \<and> t_status t = Failed \<and> t_error t = Some ''plan failed''"
    by (metis errorMessage.simps(1))
  from AutomationAgent_plan_pending
  obtain planned where
    p: "AutomationAgent_plan threeStepPlanner demoRegistry demoNanoid
          ((newTask demoNanoid addDaysValidated)\<lparr>t_status := Planning\<rparr>) = Inr planned"
    and pending: "\<forall>s \<in> set planned. s_status s = Pending"
    by blast
  from C1_execute_boundary [of addDaysInput ?issues
      "AutomationAgent_plan threeStepPlanner demoRegistry demoNanoid"
      demoRegistry demoNanoid addDaysValidated] parse_addDaysInput
  obtain t where t: "execute (AutomationAgent_plan threeStepPlanner demoRegistry demoNanoid)
              demoRegistry demoNanoid addDaysInput = Inr t"
    and fl: "\<forall>planned. AutomationAgent_plan threeStepPlanner demoRegistry demoNanoid
                 ((newTask demoNanoid addDaysValidated)\<lparr>t_status := Planning\<rparr>) = Inr planned
                    \<and> (\<forall>s \<in> set planned. s_status s = Pending) \<longrightarrow>
                  (\<forall>s \<in> set (t_steps t). s_status s = Failed \<longrightarrow>
                      t_status t = Failed \<and> t_error t = s_error s)"
    by blast
  from t threeStep_execute have second: "s_status (t_steps t ! 1) = Failed"
    and mem: "t_steps t ! 1 \<in> set (t_steps t)" and boom: "s_error (t_steps t ! 1) = Some ''boom''"
    by auto
  from fl p pending mem second
  have st: "t_status t = Failed" and err: "t_error t = s_error (t_steps t ! 1)"
    by blast+
  from err boom have err': "t_error t = Some ''boom''" by simp
  have c: "\<exists>t. execute (AutomationAgent_plan threeStepPlanner demoRegistry demoNanoid)
              demoRegistry demoNanoid addDaysInput = Inr t
          \<and> s_status (t_steps t ! 1) = Failed
          \<and> t_status t = Failed
          \<and> t_error t = s_error (t_steps t ! 1)
          \<and> t_error t = Some ''boom''"
    by (intro exI [of _ t] conjI) (rule t second st err err')+
  show ?thesis
    by (intro conjI) (rule parse_emptyDescriptionInput a parse_addDaysInput tp b c)+
qed

text \<open>A plan of three steps whose second step fails.\<close>

theorem C2_task_status_witness:
  "TaskInputSchema_parse addDaysInput = Inr addDaysValidated
   \<and> (\<exists>t. execute (AutomationAgent_plan threeStepPlanner demoRegistry demoNanoid)
              demoRegistry demoNanoid addDaysInput = Inr t
          \<and> t_status t = Failed
          \<and> map s_status (t_steps t) = [Completed, Failed, Pending]
          \<and> t_error t = Some ''boom'')"
proof -
  from C2_task_status [OF parse_addDaysInput, of threeStepPlanner demoRegistry demoNanoid]
  obtain t where t: "execute (AutomationAgent_plan threeStepPlanner demoRegistry demoNanoid)
              demoRegistry demoNanoid addDaysInput = Inr t"
    and iff: "t_status t = Completed \<longleftrightarrow> (\<forall>s \<in> set (t_steps t). s_status s = Completed)"
    by blast
  from t threeStep_execute have steps: "map s_status (t_steps t) = [Completed, Failed, Pending]"
    and err: "t_error t = Some ''boom''" and st: "t_status t = Failed"
    by auto
  show ?thesis
    by (intro conjI exI [of _ t]) (rule parse_addDaysInput t st steps err)+
qed

lemma emptyPlanner_plan:
  "AutomationAgent_plan emptyPlanner demoRegistry demoNanoid
      ((newTask demoNanoid addDaysValidated)\<lparr>t_status := Planning\<rparr>) = Inr []"
  by (simp add: AutomationAgent_plan_def demoRegistry_nonempty emptyPlanner_def
        convertPlanToSteps_def Let_def)

text \<open>A failing planner and a planner that returns no steps, on the example registry.\<close>

theorem C6_planning_witness:
  "demoRegistry \<noteq> []
   \<and> isl (failingPlanner ((newTask demoNanoid addDaysValidated)\<lparr>t_status := Planning\<rparr>)
             (getAll demoRegistry))
   \<and> (\<exists>steps. AutomationAgent_plan failingPlanner demoRegistry demoNanoid
                 ((newTask demoNanoid addDaysValidated)\<lparr>t_status := Planning\<rparr>) = Inr steps
          \<and> length steps = 1)
   \<and> TaskInputSchema_parse addDaysInput = Inr addDaysValidated
   \<and> AutomationAgent_plan emptyPlanner demoRegistry demoNanoid
        ((newTask demoNanoid addDaysValidated)\<lparr>t_status := Planning\<rparr>) = Inr []
   \<and> execute (AutomationAgent_plan emptyPlanner demoRegistry demoNanoid)
        demoRegistry demoNanoid addDaysInput
       = Inr ((newTask demoNanoid addDaysValidated)\<lparr>t_status := Completed, t_result := JObj []\<rparr>)"
proof -
  have ne: "demoRegistry \<noteq> []" by (simp add: demoRegistry_def)
  have fl: "isl (failingPlanner ((newTask demoNanoid addDaysValidated)\<lparr>t_status := Planning\<rparr>)
             (getAll demoRegistry))"
    by (simp add: failingPlanner_def)
  from C6_planning [of failingPlanner demoRegistry demoNanoid
      "(newTask demoNanoid addDaysValidated)\<lparr>t_status := Planning\<rparr>"
      addDaysInput addDaysValidated
      "AutomationAgent_plan emptyPlanner demoRegistry demoNanoid"]
    fl parse_addDaysInput emptyPlanner_plan
  have a: "\<exists>steps. AutomationAgent_plan failingPlanner demoRegistry demoNanoid
                 ((newTask demoNanoid addDaysValidated)\<lparr>t_status := Planning\<rparr>) = Inr steps
          \<and> length steps = 1"
    and b: "execute (AutomationAgent_plan emptyPlanner demoRegistry demoNanoid)
        demoRegistry demoNanoid addDaysInput
       = Inr ((newTask demoNanoid addDaysValidated)\<lparr>t_status := Completed, t_result := JObj []\<rparr>)"
    by blast+
  from ne fl a parse_addDaysInput emptyPlanner_plan b show ?thesis by blast
qed

section \<open>Properties of the retry wrapper\<close>

text \<open>
  While the outcomes are failures other than \<^verbatim>\<open>AbortError\<close> and budget is left, the
  loop moves on to the next attempt.
\<close>

lemma pRetry_loop_skip:
  "\<forall>i. n \<le> i \<and> i < n + d \<longrightarrow> (\<exists>e. input i = Inl e \<and> (\<forall>m. e \<noteq> AbortError m)) \<Longrightarrow>
   d \<le> r \<Longrightarrow> pRetry_loop input r n = pRetry_loop input (r - d) (n + d)"
proof (induction d arbitrary: r n)
  case 0
  then show ?case by simp
next
  case (Suc d)
  from Suc.prems(2) obtain r' where r: "r = Suc r'" by (cases r) simp_all
  from Suc.prems(1) [rule_format, of n]
  obtain e where e: "input n = Inl e" "\<forall>m. e \<noteq> AbortError m"
    by auto
  then have step: "pRetry_loop input (Suc r') n = pRetry_loop input r' (Suc n)"
    by (cases e) simp_all
  from Suc.prems(1)
  have "\<forall>i. Suc n \<le> i \<and> i < Suc n + d \<longrightarrow> (\<exists>e. input i = Inl e \<and> (\<forall>m. e \<noteq> AbortError m))"
    by simp
  moreover from Suc.prems(2) r have "d \<le> r'" by simp
  ultimately have "pRetry_loop input r' (Suc n) = pRetry_loop input (r' - d) (Suc n + d)"
    by (rule Suc.IH)
  with step r show ?case by simp
qed

lemma pRetry_loop_success:
  "input n = Inr v \<Longrightarrow> pRetry_loop input r n = (Inr v, n)"
  by (cases r) simp_all

lemma pRetry_loop_abort:
  "input n = Inl (AbortError m) \<Longrightarrow> pRetry_loop input r n = (Inl (Error m), n)"
  by (cases r) simp_all

lemma retryable_not_abort: "isRetryableError e \<Longrightarrow> e \<noteq> AbortError m"
  by (cases e) simp_all

lemma retryableUntil_wrapped:
  assumes "retryableUntil operation k"
  shows "\<forall>i. 1 \<le> i \<and> i < 1 + (k - 1) \<longrightarrow>
           (\<exists>e. (case operation i of
                    Inr v \<Rightarrow> Inr v
                  | Inl err \<Rightarrow>
                      if \<not> isRetryableError err
                      then Inl (AbortError (errorMessage err ''Non-retryable error''))
                      else Inl err) = Inl e \<and> (\<forall>m. e \<noteq> AbortError m))"
proof (intro allI impI)
  fix i
  assume "1 \<le> i \<and> i < 1 + (k - 1)"
  then have "i \<in> {1..<k}" by auto
  with assms have "case operation i of Inl e \<Rightarrow> isRetryableError e | Inr v \<Rightarrow> False"
    unfolding retryableUntil_def by blast
  then obtain e where "operation i = Inl e" "isRetryableError e"
    by (cases "operation i") simp_all
  then show "\<exists>e. (case operation i of
                    Inr v \<Rightarrow> Inr v
                  | Inl err \<Rightarrow>
                      if \<not> isRetryableError err
                      then Inl (AbortError (errorMessage err ''Non-retryable error''))
                      else Inl err) = Inl e \<and> (\<forall>m. e \<noteq> AbortError m)"
    using retryable_not_abort by auto
qed

lemma withRetry_reaches:
  assumes ru: "retryableUntil operation k" and k: "1 \<le> k" "k \<le> retries options + 1"
  shows "withRetry operation options =
           pRetry_loop
             (\<lambda>n. case operation n of
                     Inr v \<Rightarrow> Inr v
                   | Inl err \<Rightarrow>
                       if \<not> isRetryableError err
                       then Inl (AbortError (errorMessage err ''Non-retryable error''))
                       else Inl err)
             (retries options + 1 - k) k"
proof -
  from k have d: "k - 1 \<le> retries options" by simp
  from pRetry_loop_skip [OF retryableUntil_wrapped [OF ru] d] k
  show ?thesis by (simp add: withRetry_def pRetry_def)
qed

text \<open>
  Claim C3. If the operation fails retryably on its first \<open>k - 1\<close> invocations and
  succeeds on the \<open>k\<close>-th, with \<open>k \<le> retries + 1\<close>, then \<^verbatim>\<open>withRetry\<close> returns that value
  after exactly \<open>k\<close> invocations. If it fails retryably on all \<open>retries + 1\<close> attempts,
  \<^verbatim>\<open>withRetry\<close> surfaces the last failure after exactly \<open>retries + 1\<close> invocations. If
  the \<open>k\<close>-th invocation fails with an error that is not retryable, \<^verbatim>\<open>withRetry\<close> fails
  with that error's message after exactly \<open>k\<close> invocations: no further one is made.
\<close>

theorem C3_withRetry:
  "(retryableUntil operation k \<and> 1 \<le> k \<and> k \<le> retries options + 1
      \<and> operation k = Inr v \<longrightarrow>
        withRetry operation options = (Inr v, k))
   \<and> (retryableUntil operation (retries options + 2) \<longrightarrow>
        (\<exists>e. operation (retries options + 1) = Inl e
            \<and> withRetry operation options = (Inl e, retries options + 1)))
   \<and> (retryableUntil operation k \<and> 1 \<le> k \<and> k \<le> retries options + 1
      \<and> operation k = Inl err \<and> \<not> isRetryableError err \<longrightarrow>
        withRetry operation options
          = (Inl (Error (errorMessage err ''Non-retryable error'')), k))"
proof (intro conjI impI)
  assume a: "retryableUntil operation k \<and> 1 \<le> k \<and> k \<le> retries options + 1
      \<and> operation k = Inr v"
  then have "withRetry operation options =
           pRetry_loop
             (\<lambda>n. case operation n of
                     Inr v \<Rightarrow> Inr v
                   | Inl err \<Rightarrow>
                       if \<not> isRetryableError err
                       then Inl (AbortError (errorMessage err ''Non-retryable error''))
                       else Inl err)
             (retries options + 1 - k) k"
    by (intro withRetry_reaches) simp_all
  with a show "withRetry operation options = (Inr v, k)"
    by (simp add: pRetry_loop_success)
next
  assume a: "retryableUntil operation k \<and> 1 \<le> k \<and> k \<le> retries options + 1
      \<and> operation k = Inl err \<and> \<not> isRetryableError err"
  then have "withRetry operation options =
           pRetry_loop
             (\<lambda>n. case operation n of
                     Inr v \<Rightarrow> Inr v
                   | Inl err \<Rightarrow>
                       if \<not> isRetryableError err
                       then Inl (AbortError (errorMessage err ''Non-retryable error''))
                       else Inl err)
             (retries options + 1 - k) k"
    by (intro withRetry_reaches) simp_all
  with a show "withRetry operation options
          = (Inl (Error (errorMessage err ''Non-retryable error'')), k)"
    by (simp add: pRetry_loop_abort)
next
  assume a: "retryableUntil operation (retries options + 2)"
  then have "case operation (retries options + 1) of
               Inl e \<Rightarrow> isRetryableError e | Inr v \<Rightarrow> False"
    unfolding retryableUntil_def by simp
  then obtain e where e: "operation (retries options + 1) = Inl e" "isRetryableError e"
    by (cases "operation (retries options + 1)") simp_all
  from a have "retryableUntil operation (retries options + 1)"
    unfolding retryableUntil_def by simp
  then have "withRetry operation options =
           pRetry_loop
             (\<lambda>n. case operation n of
                     Inr v \<Rightarrow> Inr v
                   | Inl err \<Rightarrow>
                       if \<not> isRetryableError err
                       then Inl (AbortError (errorMessage err ''Non-retryable error''))
                       else Inl err)
             (retries options + 1 - (retries options + 1)) (retries options + 1)"
    by (intro withRetry_reaches) simp_all
  with e have "withRetry operation options = (Inl e, retries options + 1)"
    by (cases e) simp_all
  with e show "\<exists>e. operation (retries options + 1) = Inl e
            \<and> withRetry operation options = (Inl e, retries options + 1)"
    by blast
qed

lemma flaky_retryable: "retryableUntil flakyOperation 3"
  by (simp add: retryableUntil_def flakyOperation_def startsWith_def)

lemma unavailable_retryable: "retryableUntil unavailableOperation (retries demoRetryOptions + 2)"
  by (simp add: retryableUntil_def unavailableOperation_def startsWith_def)

lemma rejected_retryable: "retryableUntil rejectedOperation 2"
  by (simp add: retryableUntil_def rejectedOperation_def startsWith_def)

lemma rejected_fatal: "\<not> isRetryableError (Error ''invalid api key'')"
  by (simp add: startsWith_def)

text \<open>
  Two timeouts and then a success; four unavailable attempts with three retries; a rate
  limit and then a rejection that is not retryable.
\<close>

theorem C3_withRetry_witness:
  "retryableUntil flakyOperation 3
   \<and> flakyOperation 3 = Inr 42
   \<and> withRetry flakyOperation demoRetryOptions = (Inr 42, 3)
   \<and> retryableUntil unavailableOperation (retries demoRetryOptions + 2)
   \<and> withRetry unavailableOperation demoRetryOptions
       = (Inl (Error ''503 Service Unavailable''), 4)
   \<and> retryableUntil rejectedOperation 2
   \<and> rejectedOperation 2 = Inl (Error ''invalid api key'')
   \<and> \<not> isRetryableError (Error ''invalid api key'')
   \<and> withRetry rejectedOperation demoRetryOptions = (Inl (Error ''invalid api key''), 2)"
proof -
  have r: "retries demoRetryOptions = 3" by (simp add: demoRetryOptions_def)
  have f3: "flakyOperation 3 = Inr 42" by (simp add: flakyOperation_def)
  have u4: "unavailableOperation 4 = Inl (Error ''503 Service Unavailable'')"
    by (simp add: unavailableOperation_def)
  have j2: "rejectedOperation 2 = Inl (Error ''invalid api key'')"
    by (simp add: rejectedOperation_def)
  from C3_withRetry [of flakyOperation 3 demoRetryOptions 42 "Error ''x''"]
    flaky_retryable f3 r
  have a: "withRetry flakyOperation demoRetryOptions = (Inr 42, 3)" by simp
  from C3_withRetry [of unavailableOperation 1 demoRetryOptions 0 "Error ''x''"]
    unavailable_retryable r u4
  have b: "withRetry unavailableOperation demoRetryOptions
       = (Inl (Error ''503 Service Unavailable''), 4)" by simp
  from C3_withRetry [of rejectedOperation 2 demoRetryOptions 0 "Error ''invalid api key''"]
    rejected_retryable j2 rejected_fatal r
  have c: "withRetry rejectedOperation demoRetryOptions = (Inl (Error ''invalid api key''), 2)"
    by simp
  show ?thesis
    by (intro conjI)
      (rule flaky_retryable f3 a unavailable_retryable b rejected_retryable j2 rejected_fatal c)+
qed

section \<open>Properties of the circuit breaker\<close>

lemma executeCalls_append:
  "executeCalls options (cs @ ds) b = executeCalls options ds (executeCalls options cs b)"
  by (induction cs arbitrary: b) simp_all

lemma failure_while_closed:
  "state b = Closed \<Longrightarrow> isl (wrapped c) \<Longrightarrow>
     breaker (CircuitBreaker_execute options c b) = onFailure options (clockAtFailure c) b
     \<and> invokedIn (CircuitBreaker_execute options c b) = Some Closed"
  by (cases "wrapped c") (simp_all add: CircuitBreaker_execute_def)

lemma failures_below_threshold:
  "state b = Closed \<Longrightarrow> \<forall>c \<in> set cs. isl (wrapped c) \<Longrightarrow>
   failures b + int (length cs) < failureThreshold options \<Longrightarrow>
     state (executeCalls options cs b) = Closed
     \<and> failures (executeCalls options cs b) = failures b + int (length cs)"
proof (induction cs arbitrary: b)
  case Nil
  then show ?case by simp
next
  case (Cons c cs)
  let ?b1 = "breaker (CircuitBreaker_execute options c b)"
  from Cons.prems have "isl (wrapped c)" by simp
  from failure_while_closed [OF Cons.prems(1) this, of options]
  have b1: "?b1 = onFailure options (clockAtFailure c) b" by simp
  from Cons.prems(3) have "failures b + 1 < failureThreshold options" by simp
  with b1 Cons.prems(1) have s1: "state ?b1 = Closed" and f1: "failures ?b1 = failures b + 1"
    by (simp_all add: onFailure_def Let_def)
  from Cons.prems(2) have "\<forall>c \<in> set cs. isl (wrapped c)" by simp
  moreover from f1 Cons.prems(3) have "failures ?b1 + int (length cs) < failureThreshold options"
    by simp
  ultimately have "state (executeCalls options cs ?b1) = Closed
     \<and> failures (executeCalls options cs ?b1) = failures ?b1 + int (length cs)"
    by (rule Cons.IH [OF s1])
  with f1 show ?case by simp
qed

lemma threshold_opens:
  assumes closed: "state b0 = Closed" and zero: "failures b0 = 0"
      and thr: "failureThreshold options = int (length calls)" and pos: "calls \<noteq> []"
      and fail: "\<forall>c \<in> set calls. isl (wrapped c)"
  shows "executeCalls options calls b0 =
           \<lparr>state = Open, failures = int (length calls),
            lastFailureTime = Some (clockAtFailure (last calls))\<rparr>"
proof -
  from pos obtain cs c where calls: "calls = cs @ [c]"
    by (metis rev_exhaust)
  let ?b1 = "executeCalls options cs b0"
  from fail calls have fcs: "\<forall>c \<in> set cs. isl (wrapped c)" and fc: "isl (wrapped c)"
    by simp_all
  from thr calls zero have "failures b0 + int (length cs) < failureThreshold options"
    by simp
  from failures_below_threshold [OF closed fcs this] zero
  have s1: "state ?b1 = Closed" and f1: "failures ?b1 = int (length cs)"
    by simp_all
  from failure_while_closed [OF s1 fc, of options]
  have "breaker (CircuitBreaker_execute options c ?b1) = onFailure options (clockAtFailure c) ?b1"
    by simp
  with f1 thr calls
  have "breaker (CircuitBreaker_execute options c ?b1) =
          \<lparr>state = Open, failures = int (length calls),
           lastFailureTime = Some (clockAtFailure c)\<rparr>"
    by (simp add: onFailure_def Let_def)
  with calls show ?thesis by (simp add: executeCalls_append)
qed

text \<open>
  Claim C4. Take a breaker that is closed with a failure count of zero (as it is when
  constructed and after any success), and let \<^verbatim>\<open>failureThreshold\<close> calls fail one after
  the other. Then the breaker is open, its count is the threshold, and it remembers the
  time of the last failure. A next call that arrives before \<^verbatim>\<open>resetTimeoutMs\<close> has elapsed
  since then is rejected with "Circuit breaker is open", the wrapped operation is not
  invoked and the breaker is unchanged. A next call that arrives once the timeout has
  elapsed invokes the operation with the breaker half-open, and if it succeeds the
  breaker is closed again with a count of zero.
\<close>

theorem C4_circuit_breaker:
  assumes closed: "state b0 = Closed" and zero: "failures b0 = 0"
      and thr: "failureThreshold options = int (length calls)" and pos: "calls \<noteq> []"
      and fail: "\<forall>c \<in> set calls. isl (wrapped c)"
      and b: "b = executeCalls options calls b0"
  shows "state b = Open
       \<and> failures b = failureThreshold options
       \<and> lastFailureTime b = Some (clockAtFailure (last calls))
       \<and> (clockAtCall next - clockAtFailure (last calls) < resetTimeoutMs options \<longrightarrow>
            CircuitBreaker_execute options next b =
              \<lparr>returned = Inl (Error ''Circuit breaker is open''), invokedIn = None,
               breaker = b\<rparr>)
       \<and> (clockAtCall next - clockAtFailure (last calls) \<ge> resetTimeoutMs options \<longrightarrow>
            invokedIn (CircuitBreaker_execute options next b) = Some HalfOpen
            \<and> (\<forall>v. wrapped next = Inr v \<longrightarrow>
                  returned (CircuitBreaker_execute options next b) = Inr v
                  \<and> state (breaker (CircuitBreaker_execute options next b)) = Closed
                  \<and> failures (breaker (CircuitBreaker_execute options next b)) = 0))"
proof -
  from threshold_opens [OF closed zero thr pos fail] b
  have eq: "b = \<lparr>state = Open, failures = int (length calls),
            lastFailureTime = Some (clockAtFailure (last calls))\<rparr>"
    by simp
  show ?thesis
    unfolding eq
    by (cases "wrapped next")
      (simp_all add: thr CircuitBreaker_execute_def shouldAttemptReset_def onSuccess_def
        onFailure_def Let_def)
qed

lemma failingCalls_breaker:
  "executeCalls demoBreakerOptions failingCalls newCircuitBreaker
     = \<lparr>state = Open, failures = 2, lastFailureTime = Some 15\<rparr>"
  by (simp add: failingCalls_def demoBreakerOptions_def newCircuitBreaker_def
        CircuitBreaker_execute_def onFailure_def Let_def)

text \<open>Threshold 2 and timeout 1000 ms: failures at 5 and 15, then calls at 510 and 1015.\<close>

theorem C4_circuit_breaker_witness:
  "state newCircuitBreaker = Closed
   \<and> failures newCircuitBreaker = 0
   \<and> failureThreshold demoBreakerOptions = int (length failingCalls)
   \<and> list_all (isl \<circ> wrapped) failingCalls
   \<and> state (executeCalls demoBreakerOptions failingCalls newCircuitBreaker) = Open
   \<and> CircuitBreaker_execute demoBreakerOptions earlyCall
        (executeCalls demoBreakerOptions failingCalls newCircuitBreaker)
       = \<lparr>returned = Inl (Error ''Circuit breaker is open''), invokedIn = None,
          breaker = \<lparr>state = Open, failures = 2, lastFailureTime = Some 15\<rparr>\<rparr>
   \<and> CircuitBreaker_execute demoBreakerOptions lateCall
        (executeCalls demoBreakerOptions failingCalls newCircuitBreaker)
       = \<lparr>returned = Inr 7, invokedIn = Some HalfOpen,
          breaker = \<lparr>state = Closed, failures = 0, lastFailureTime = Some 15\<rparr>\<rparr>"
proof -
  have h1: "state newCircuitBreaker = Closed" and h2: "failures newCircuitBreaker = 0"
    by (simp_all add: newCircuitBreaker_def)
  have h3: "failureThreshold demoBreakerOptions = int (length failingCalls)"
    by (simp add: demoBreakerOptions_def failingCalls_def)
  have h4: "failingCalls \<noteq> []" by (simp add: failingCalls_def)
  have h5: "\<forall>c \<in> set failingCalls. isl (wrapped c)" by (simp add: failingCalls_def)
  have h5': "list_all (isl \<circ> wrapped) failingCalls" by (simp add: failingCalls_def)
  have l: "clockAtFailure (last failingCalls) = 15" by (simp add: failingCalls_def)
  note th = C4_circuit_breaker [OF h1 h2 h3 h4 h5 refl]
  from th [of earlyCall] have a: "state (executeCalls demoBreakerOptions failingCalls newCircuitBreaker) = Open"
    by blast
  from th [of earlyCall] l
  have e: "CircuitBreaker_execute demoBreakerOptions earlyCall
        (executeCalls demoBreakerOptions failingCalls newCircuitBreaker)
       = \<lparr>returned = Inl (Error ''Circuit breaker is open''), invokedIn = None,
          breaker = \<lparr>state = Open, failures = 2, lastFailureTime = Some 15\<rparr>\<rparr>"
    unfolding failingCalls_breaker by (simp add: earlyCall_def demoBreakerOptions_def)
  have lt: "CircuitBreaker_execute demoBreakerOptions lateCall
        (executeCalls demoBreakerOptions failingCalls newCircuitBreaker)
       = \<lparr>returned = Inr 7, invokedIn = Some HalfOpen,
          breaker = \<lparr>state = Closed, failures = 0, lastFailureTime = Some 15\<rparr>\<rparr>"
    unfolding failingCalls_breaker
    by (simp add: lateCall_def demoBreakerOptions_def CircuitBreaker_execute_def
          shouldAttemptReset_def onSuccess_def)
  show ?thesis
    by (intro conjI) (rule h1 h2 h3 h5' a e lt)+
qed

end
